theory Spec2Isabelle
  imports Main
begin

section \<open>Values shared by the request layer and the client\<close>

text \<open>
  The client talks to the Athena SDK through callbacks \<open>(err, data)\<close>. A reply of the SDK is
  either a failure carrying an \<open>AWSError\<close> or a success carrying the data. Durations are
  milliseconds and retry counts are attempt numbers; both are natural numbers here. The
  process-wide execution counter and its ceiling are integers, since the source guards the
  counter against going below zero.
\<close>

record AWSError =
  code :: string
  message :: string

datatype error = Aws AWSError | Error string

datatype 'a reply = Failure AWSError | Success 'a

datatype 'a settled = Resolved 'a | Rejected error

text \<open>
  The source reads every optional number as \<open>config.x || defaultX\<close>: the default is taken
  when the option is missing and also when it is the number zero.
\<close>

definition orDefault :: "nat option \<Rightarrow> nat \<Rightarrow> nat" where
  "orDefault x d = (case x of None \<Rightarrow> d | Some v \<Rightarrow> if v = 0 then d else v)"

text \<open>The same operator on strings: the empty string is falsy.\<close>

definition orDefaultStr :: "string option \<Rightarrow> string \<Rightarrow> string" where
  "orDefaultStr x d = (case x of None \<Rightarrow> d | Some v \<Rightarrow> if v = [] then d else v)"

section \<open>The request layer (\<open>AthenaRequest\<close>)\<close>

record AthenaRequestConfig =
  bucketUri :: string
  baseRetryWait :: "nat option"
  retryWaitMax :: "nat option"
  retryCountMax :: "nat option"
  database :: "string option"
  encryptionOption :: "string option"
  encryptionKmsKey :: "string option"
  workGroup :: "string option"

record EncryptionConfigurationParam =
  EncryptionOption :: string
  KmsKey :: "string option"

record AthenaRequestParams =
  QueryString :: string
  OutputLocation :: string
  EncryptionConfiguration :: "EncryptionConfigurationParam option"
  Database :: string
  WorkGroup :: string

record Status =
  State :: string
  StateChangeReason :: "string option"

record QueryExecution =
  Status :: Status

definition defaultBaseRetryWait :: nat where
  "defaultBaseRetryWait = 200"

definition defaultRetryWaitMax :: nat where
  "defaultRetryWaitMax = 10000"

definition defaultRetryCountMax :: nat where
  "defaultRetryCountMax = 10"

definition isRetryException :: "AWSError \<Rightarrow> bool" where
  "isRetryException err \<longleftrightarrow>
     code err = ''ThrottlingException'' \<or>
     code err = ''TooManyRequestsException'' \<or>
     message err = ''Query exhausted resources at this scale factor''"

definition canRetry :: "nat \<Rightarrow> 'a AthenaRequestConfig_scheme \<Rightarrow> bool" where
  "canRetry retryCount config \<longleftrightarrow>
     retryCount < orDefault (retryCountMax config) defaultRetryCountMax"

text \<open>
  The wait computed in \<open>startQuery\<close>:
  \<open>Math.min((baseRetryWait || 200) * Math.pow(2, retryCount), retryWaitMax || 10000)\<close>.
\<close>

definition startQuery_wait :: "'a AthenaRequestConfig_scheme \<Rightarrow> nat \<Rightarrow> nat" where
  "startQuery_wait config retryCount =
     min (orDefault (baseRetryWait config) defaultBaseRetryWait * 2 ^ retryCount)
         (orDefault (retryWaitMax config) defaultRetryWaitMax)"

text \<open>
  The product and the minimum above are exact in the doubles of JavaScript: multiplying by
  a power of two changes only the exponent, and an overflow to infinity is cut by the
  minimum. A power of another base is not: \<open>Math.pow\<close> returns a double, and a natural
  number is a double exactly when it is \<open>m * 2 ^ e\<close> with \<open>m < 2 ^ 53\<close> and \<open>e \<le> 971\<close>.
\<close>

fun fits :: "nat \<Rightarrow> nat \<Rightarrow> bool" where
  "fits 0 x = (x < 2 ^ 53)"
| "fits (Suc e) x = (x < 2 ^ 53 \<or> (even x \<and> fits e (x div 2)))"

definition representable :: "nat \<Rightarrow> bool" where
  "representable x = fits 971 x"

text \<open>
  The number \<open>Math.pow\<close> returns for a natural base and exponent: the power itself when
  it is a double, and otherwise a double that approximates it (a neighbouring double, or
  infinity beyond the largest double), which is never the power itself and always above
  \<open>2 ^ 53\<close>.
\<close>

datatype number = Exact nat | Approx nat

definition Math_pow :: "nat \<Rightarrow> nat \<Rightarrow> number" where
  "Math_pow base n = (if representable (base ^ n) then Exact (base ^ n) else Approx (base ^ n))"

text \<open>
  The timers of Node, which \<open>setTimeout\<close> is here: the callback runs after the given
  number of milliseconds when that number lies between 1 and \<open>2 ^ 31 - 1\<close>, and after 1
  millisecond otherwise.
\<close>

definition timer_delay :: "nat \<Rightarrow> nat" where
  "timer_delay ms = (if 1 \<le> ms \<and> ms \<le> 2 ^ 31 - 1 then ms else 1)"

fun number_delay :: "number \<Rightarrow> nat" where
  "number_delay (Exact ms) = timer_delay ms"
| "number_delay (Approx x) = 1"

text \<open>
  The wait computed in \<open>stopQuery\<close> and in \<open>getQueryExecution\<close>:
  \<open>Math.pow(baseRetryWait || 200, retryCount)\<close>.
\<close>

definition stopQuery_wait :: "'a AthenaRequestConfig_scheme \<Rightarrow> nat \<Rightarrow> number" where
  "stopQuery_wait config retryCount =
     Math_pow (orDefault (baseRetryWait config) defaultBaseRetryWait) retryCount"

definition getQueryExecution_wait :: "'a AthenaRequestConfig_scheme \<Rightarrow> nat \<Rightarrow> number" where
  "getQueryExecution_wait config retryCount =
     Math_pow (orDefault (baseRetryWait config) defaultBaseRetryWait) retryCount"

text \<open>
  What one call of a request method did: how the promise settled, the waits computed
  before each retry (in order), the time the call took (latencies of the SDK calls plus
  the delays of the timers), and the replies the SDK has left.
\<close>

record ('a, 'b, 'w) finished =
  outcome :: "'b settled"
  waits :: "'w list"
  elapsed :: nat
  rest :: "(nat \<times> 'a reply) list"

text \<open>
  The closure \<open>loopFunc\<close> of \<open>startQuery\<close>, \<open>stopQuery\<close> and \<open>getQueryExecution\<close>. The three
  copies in the source differ only in the wait they compute (the first argument; the
  second is the delay of the timer that \<open>setTimeout(loopFunc, wait)\<close> starts) and in
  the part of the data they resolve with (applied by the callers below). The SDK is a
  script: the replies, each with its latency, that successive calls will receive. When the
  script is exhausted the callback never runs and the promise never settles: \<open>None\<close>.
\<close>

fun loopFunc ::
  "('c AthenaRequestConfig_scheme \<Rightarrow> nat \<Rightarrow> 'w) \<Rightarrow> ('w \<Rightarrow> nat) \<Rightarrow>
   'c AthenaRequestConfig_scheme \<Rightarrow> nat \<Rightarrow>
   (nat \<times> 'a reply) list \<Rightarrow> ('a, 'a, 'w) finished option" where
  "loopFunc wait delay config retryCount [] = None"
| "loopFunc wait delay config retryCount ((latency, Failure err) # script) =
     (if isRetryException err \<and> canRetry retryCount config then
        (case loopFunc wait delay config (Suc retryCount) script of
           None \<Rightarrow> None
         | Some d \<Rightarrow>
             Some (d\<lparr>waits := wait config retryCount # waits d,
                     elapsed := latency + delay (wait config retryCount) + elapsed d\<rparr>))
      else Some \<lparr>outcome = Rejected (Aws err), waits = [], elapsed = latency, rest = script\<rparr>)"
| "loopFunc wait delay config retryCount ((latency, Success data) # script) =
     Some \<lparr>outcome = Resolved data, waits = [], elapsed = latency, rest = script\<rparr>"

definition startQuery_params :: "string \<Rightarrow> 'a AthenaRequestConfig_scheme \<Rightarrow> AthenaRequestParams" where
  "startQuery_params query config =
     \<lparr>QueryString = query,
      OutputLocation = bucketUri config,
      EncryptionConfiguration =
        (case encryptionOption config of
           None \<Rightarrow> None
         | Some opt \<Rightarrow>
             if opt = [] then None
             else Some \<lparr>EncryptionOption = opt,
                        KmsKey = (case encryptionKmsKey config of
                                    None \<Rightarrow> None
                                  | Some k \<Rightarrow> if k = [] then None else Some k)\<rparr>),
      Database = orDefaultStr (database config) ''default'',
      WorkGroup = orDefaultStr (workGroup config) ''primary''\<rparr>"

definition request_startQuery ::
  "string \<Rightarrow> 'c AthenaRequestConfig_scheme \<Rightarrow> (nat \<times> string reply) list \<Rightarrow>
   (string, string, nat) finished option" where
  "request_startQuery query config script =
     loopFunc startQuery_wait timer_delay config 0 script"

definition stopQuery ::
  "string \<Rightarrow> 'c AthenaRequestConfig_scheme \<Rightarrow> (nat \<times> unit reply) list \<Rightarrow>
   (unit, unit, number) finished option" where
  "stopQuery queryId config script = loopFunc stopQuery_wait number_delay config 0 script"

definition getQueryExecution ::
  "string \<Rightarrow> 'c AthenaRequestConfig_scheme \<Rightarrow> (nat \<times> QueryExecution reply) list \<Rightarrow>
   (QueryExecution, QueryExecution, number) finished option" where
  "getQueryExecution queryId config script =
     loopFunc getQueryExecution_wait number_delay config 0 script"

text \<open>
  The \<open>switch\<close> of \<open>checkQuery\<close> on \<open>queryExecution.Status.State\<close>: the promise resolves with
  \<open>isSucceed\<close> unless an error was set, and then rejects with it.
\<close>

definition checkQuery_state :: "QueryExecution \<Rightarrow> bool settled" where
  "checkQuery_state queryExecution =
     (let state = State (Status queryExecution) in
      if state = ''QUEUED'' \<or> state = ''RUNNING'' then Resolved False
      else if state = ''SUCCEEDED'' then Resolved True
      else if state = ''FAILED'' then
        Rejected (Error (orDefaultStr (StateChangeReason (Status queryExecution))
                           ''FAILED: Execution Error''))
      else if state = ''CANCELLED'' then Rejected (Error ''FAILED: Query CANCELLED'')
      else Rejected (Error (''FAILED: UnKnown State '' @ state)))"

definition checkQuery ::
  "string \<Rightarrow> 'c AthenaRequestConfig_scheme \<Rightarrow> (nat \<times> QueryExecution reply) list \<Rightarrow>
   (QueryExecution, bool, number) finished option" where
  "checkQuery queryId config script =
     (case getQueryExecution queryId config script of
        None \<Rightarrow> None
      | Some d \<Rightarrow>
          Some \<lparr>outcome = (case outcome d of
                             Resolved queryExecution \<Rightarrow> checkQuery_state queryExecution
                           | Rejected err \<Rightarrow> Rejected err),
                waits = waits d, elapsed = elapsed d, rest = rest d\<rparr>)"

text \<open>
  \<open>getQueryResults\<close> calls the SDK once and settles with whatever the callback receives.
\<close>

fun getQueryResults :: "(nat \<times> 'r reply) list \<Rightarrow> ('r, 'r, nat) finished option" where
  "getQueryResults [] = None"
| "getQueryResults ((latency, Failure err) # script) =
     Some \<lparr>outcome = Rejected (Aws err), waits = [], elapsed = latency, rest = script\<rparr>"
| "getQueryResults ((latency, Success data) # script) =
     Some \<lparr>outcome = Resolved data, waits = [], elapsed = latency, rest = script\<rparr>"

section \<open>The client (\<open>AthenaClient\<close>)\<close>

record AthenaClientConfig = AthenaRequestConfig +
  pollingInterval :: "nat option"
  queryTimeout :: "nat option"
  config_concurrentExecMax :: "int option"
  execRightCheckInterval :: "nat option"
  skipFetchResult :: "bool option"

definition defaultPollingInterval :: nat where
  "defaultPollingInterval = 1000"

definition defaultQueryTimeout :: nat where
  "defaultQueryTimeout = 0"

definition defaultExecRightCheckInterval :: nat where
  "defaultExecRightCheckInterval = 100"

text \<open>The two module-level variables, initially 5 and 0.\<close>

record globals =
  concurrentExecMax :: int
  concurrentExecNum :: int

definition initial_globals :: globals where
  "initial_globals = \<lparr>concurrentExecMax = 5, concurrentExecNum = 0\<rparr>"

definition setConcurrentExecMax :: "int \<Rightarrow> 'a globals_scheme \<Rightarrow> 'a globals_scheme" where
  "setConcurrentExecMax val g = g\<lparr>concurrentExecMax := val\<rparr>"

definition canStartQuery :: "'a globals_scheme \<Rightarrow> bool" where
  "canStartQuery g \<longleftrightarrow> concurrentExecNum g < concurrentExecMax g"

text \<open>\<open>concurrentExecNum = Math.min(++concurrentExecNum, concurrentExecMax)\<close>\<close>

definition client_startQuery :: "'a globals_scheme \<Rightarrow> 'a globals_scheme" where
  "client_startQuery g =
     g\<lparr>concurrentExecNum := min (concurrentExecNum g + 1) (concurrentExecMax g)\<rparr>"

text \<open>\<open>concurrentExecNum = Math.max(--concurrentExecNum, 0)\<close>\<close>

definition endQuery :: "'a globals_scheme \<Rightarrow> 'a globals_scheme" where
  "endQuery g = g\<lparr>concurrentExecNum := max (concurrentExecNum g - 1) 0\<rparr>"

text \<open>
  The constructor assigns the ceiling from a truthy \<open>config.concurrentExecMax\<close> before it
  validates the encryption options, so the assignment stays when it throws.
\<close>

definition constructor ::
  "AthenaClientConfig \<Rightarrow> 'a globals_scheme \<Rightarrow> (error + AthenaClientConfig) \<times> 'a globals_scheme" where
  "constructor config g =
     (let g' = (case config_concurrentExecMax config of
                  None \<Rightarrow> g
                | Some val \<Rightarrow> if val = 0 then g else g\<lparr>concurrentExecMax := val\<rparr>)
      in if (encryptionOption config = Some ''SSE_KMS'' \<or>
             encryptionOption config = Some ''CSE_KMS'') \<and>
            encryptionKmsKey config = None
         then (Inl (Error ''KMS key required''), g')
         else (Inr config, g'))"

subsection \<open>The world one execution runs in\<close>

text \<open>
  What other code of the process does to the two globals while this execution sleeps in
  the admission loop: other executions taking and returning slots, and calls of
  \<open>setConcurrentExecMax\<close>.
\<close>

datatype other = OtherStartQuery | OtherEndQuery | OtherSetConcurrentExecMax int

fun other_step :: "'a globals_scheme \<Rightarrow> other \<Rightarrow> 'a globals_scheme" where
  "other_step g OtherStartQuery = client_startQuery g"
| "other_step g OtherEndQuery = endQuery g"
| "other_step g (OtherSetConcurrentExecMax val) = setConcurrentExecMax val g"

text \<open>
  A sequence of operations on the two globals respects the ceiling when no call of
  \<open>setConcurrentExecMax\<close> in it sets the ceiling below the count of that moment.
\<close>

fun respects_ceiling :: "'a globals_scheme \<Rightarrow> other list \<Rightarrow> bool" where
  "respects_ceiling g [] = True"
| "respects_ceiling g (OtherStartQuery # ops) = respects_ceiling (client_startQuery g) ops"
| "respects_ceiling g (OtherEndQuery # ops) = respects_ceiling (endQuery g) ops"
| "respects_ceiling g (OtherSetConcurrentExecMax val # ops) =
     (concurrentExecNum g \<le> val \<and> respects_ceiling (setConcurrentExecMax val g) ops)"

text \<open>What the execution did, in order: SDK calls and its own slot operations.\<close>

datatype action =
    CallStartQueryExecution AthenaRequestParams
  | CallGetQueryExecution string
  | CallStopQueryExecution string
  | CallGetQueryResults string nat "string option"
  | SlotStartQuery
  | SlotEndQuery

text \<open>
  The world: the globals, a clock in milliseconds, the scripts of the four SDK operations,
  the activity of other code during each sleep of the admission loop, and the trace.
\<close>

record 'r world = globals +
  now :: nat
  startQueryExecution :: "(nat \<times> string reply) list"
  getQueryExecution_replies :: "(nat \<times> QueryExecution reply) list"
  stopQueryExecution :: "(nat \<times> unit reply) list"
  getQueryResults_replies :: "(nat \<times> 'r reply) list"
  others :: "other list list"
  trace :: "action list"

text \<open>
  Modelled from the spec: \<open>util.sleep\<close> is not among the sources. It is a non-blocking
  wait point: the execution resumes after the given number of milliseconds.
\<close>

definition sleep :: "nat \<Rightarrow> 'r world \<Rightarrow> 'r world" where
  "sleep ms w = w\<lparr>now := now w + ms\<rparr>"

text \<open>
  The timer armed after submission: \<open>isTimeout\<close> becomes true once the delay of a timer
  of \<open>queryTimeout\<close> milliseconds has passed, and no timer is armed when
  \<open>queryTimeout || 0\<close> is zero.
\<close>

definition setTimeout :: "AthenaClientConfig \<Rightarrow> nat \<Rightarrow> nat option" where
  "setTimeout config armedAt =
     (if orDefault (queryTimeout config) defaultQueryTimeout \<noteq> 0
      then Some (armedAt + timer_delay (orDefault (queryTimeout config) defaultQueryTimeout))
      else None)"

definition isTimeout :: "nat option \<Rightarrow> nat \<Rightarrow> bool" where
  "isTimeout timer t = (case timer of None \<Rightarrow> False | Some deadline \<Rightarrow> deadline \<le> t)"

subsection \<open>Admission\<close>

text \<open>
  \<open>while (!this.canStartQuery()) await util.sleep(execRightCheckInterval || 100)\<close>. Each
  sleep lets the next batch of other activity run. The result is the globals at the moment
  the loop exits, the number of sleeps, and the activity not yet consumed; \<open>None\<close> when the
  execution is never admitted.
\<close>

fun waitForSlot ::
  "other list list \<Rightarrow> 'a globals_scheme \<Rightarrow> ('a globals_scheme \<times> nat \<times> other list list) option" where
  "waitForSlot [] g = (if canStartQuery g then Some (g, 0, []) else None)"
| "waitForSlot (batch # batches) g =
     (if canStartQuery g then Some (g, 0, batch # batches)
      else (case waitForSlot batches (foldl other_step g batch) of
              None \<Rightarrow> None
            | Some (g', sleeps, remaining) \<Rightarrow> Some (g', Suc sleeps, remaining)))"

subsection \<open>Polling\<close>

text \<open>
  Bookkeeping after a request method returned: the clock advances by the time the call
  took, and the trace gets one entry per SDK call (one more than the retries).
\<close>

definition after_call :: "action \<Rightarrow> ('a, 'b, 'w) finished \<Rightarrow> 'r world \<Rightarrow> 'r world" where
  "after_call a d w =
     w\<lparr>now := now w + elapsed d,
       trace := trace w @ replicate (Suc (length (waits d))) a\<rparr>"

lemma loopFunc_rest_shorter:
  "loopFunc wait delay config retryCount script = Some d \<Longrightarrow> length (rest d) < length script"
proof (induction wait delay config retryCount script arbitrary: d rule: loopFunc.induct)
  case (1 wait delay config retryCount)
  then show ?case by simp
next
  case (2 wait delay config retryCount latency err script)
  then show ?case by (fastforce split: if_splits option.splits)
next
  case (3 wait delay config retryCount latency data script)
  then show ?case by auto
qed

lemma checkQuery_rest_shorter:
  "checkQuery queryId config script = Some d \<Longrightarrow> length (rest d) < length script"
  by (auto simp: checkQuery_def getQueryExecution_def split: option.splits
           dest: loopFunc_rest_shorter)

text \<open>
  \<open>while (!isTimeout && !(await this.request.checkQuery(queryId, config)))
     await util.sleep(pollingInterval || 1000)\<close>.
  The loop ends normally (\<open>Inr\<close>) when the timer has fired at a loop head or when the check
  resolved with true, and with the thrown error (\<open>Inl\<close>) when the check rejected.
\<close>

function pollLoop ::
  "AthenaClientConfig \<Rightarrow> nat option \<Rightarrow> string \<Rightarrow> 'r world \<Rightarrow>
   ((error + unit) \<times> 'r world) option" where
  "pollLoop config timer queryId w =
     (if isTimeout timer (now w) then Some (Inr (), w)
      else (case checkQuery queryId config (getQueryExecution_replies w) of
              None \<Rightarrow> None
            | Some d \<Rightarrow>
                (case outcome d of
                   Rejected err \<Rightarrow>
                     Some (Inl err,
                           after_call (CallGetQueryExecution queryId) d
                             (w\<lparr>getQueryExecution_replies := rest d\<rparr>))
                 | Resolved isSucceed \<Rightarrow>
                     if isSucceed
                     then Some (Inr (),
                                after_call (CallGetQueryExecution queryId) d
                                  (w\<lparr>getQueryExecution_replies := rest d\<rparr>))
                     else pollLoop config timer queryId
                            (sleep (orDefault (pollingInterval config) defaultPollingInterval)
                               (after_call (CallGetQueryExecution queryId) d
                                  (w\<lparr>getQueryExecution_replies := rest d\<rparr>))))))"
  by pat_completeness auto
termination
  by (relation "measure (\<lambda>(config, timer, queryId, w). length (getQueryExecution_replies w))")
     (auto simp: sleep_def after_call_def dest: checkQuery_rest_shorter)

declare pollLoop.simps [simp del]

subsection \<open>After the loop: timeout check and result fetch\<close>

text \<open>
  \<open>if (isTimeout) { await stopQuery(queryId, config); throw new Error('query timeout') }
     resultSet = await getQueryResults(queryId, maxResult, nextToken)\<close>.
  The result is what the \<open>try\<close> block has thrown (\<open>Inl\<close>) or the result set it holds
  (\<open>Inr\<close>), whether the check found \<open>isTimeout\<close> set, and the world.
\<close>

definition afterPolling ::
  "AthenaClientConfig \<Rightarrow> nat option \<Rightarrow> string \<Rightarrow> nat \<Rightarrow> string option \<Rightarrow> 'r world \<Rightarrow>
   ((error + 'r) \<times> bool \<times> 'r world) option" where
  "afterPolling config timer queryId maxResult nextToken w =
     (if isTimeout timer (now w) then
        (case stopQuery queryId config (stopQueryExecution w) of
           None \<Rightarrow> None
         | Some c \<Rightarrow>
             Some ((case outcome c of
                      Rejected err \<Rightarrow> Inl err
                    | Resolved u \<Rightarrow> Inl (Error ''query timeout'')),
                   True,
                   after_call (CallStopQueryExecution queryId) c
                     (w\<lparr>stopQueryExecution := rest c\<rparr>)))
      else
        (case getQueryResults (getQueryResults_replies w) of
           None \<Rightarrow> None
         | Some f \<Rightarrow>
             Some ((case outcome f of
                      Rejected err \<Rightarrow> Inl err
                    | Resolved resultSet \<Rightarrow> Inr resultSet),
                   False,
                   after_call (CallGetQueryResults queryId maxResult nextToken) f
                     (w\<lparr>getQueryResults_replies := rest f\<rparr>))))"

subsection \<open>From a loop head to the result\<close>

text \<open>
  Lines 128 to 144 of \<open>_execute\<close>, entered at a head of the polling loop: the loop, and
  when it ends normally the timeout check and the result fetch.
\<close>

definition polling ::
  "AthenaClientConfig \<Rightarrow> nat option \<Rightarrow> string \<Rightarrow> nat \<Rightarrow> string option \<Rightarrow> 'r world \<Rightarrow>
   ((error + 'r) \<times> bool \<times> 'r world) option" where
  "polling config timer queryId maxResult nextToken w =
     (case pollLoop config timer queryId w of
        None \<Rightarrow> None
      | Some (Inl err, w3) \<Rightarrow> Some (Inl err, False, w3)
      | Some (Inr u, w3) \<Rightarrow> afterPolling config timer queryId maxResult nextToken w3)"

subsection \<open>The \<open>try\<close> block of \<open>_execute\<close>\<close>

definition tryBlock ::
  "string \<Rightarrow> nat \<Rightarrow> string option \<Rightarrow> AthenaClientConfig \<Rightarrow> 'r world \<Rightarrow>
   ((error + 'r) \<times> bool \<times> 'r world) option" where
  "tryBlock query maxResult nextToken config w =
     (let w1 = client_startQuery (w\<lparr>trace := trace w @ [SlotStartQuery]\<rparr>) in
      case request_startQuery query config (startQueryExecution w1) of
        None \<Rightarrow> None
      | Some s \<Rightarrow>
          (let w2 = after_call (CallStartQueryExecution (startQuery_params query config)) s
                      (w1\<lparr>startQueryExecution := rest s\<rparr>) in
           case outcome s of
             Rejected err \<Rightarrow> Some (Inl err, False, w2)
           | Resolved queryId \<Rightarrow>
               polling config (setTimeout config (now w2)) queryId maxResult nextToken w2))"

subsection \<open>The events of the transform and the two views\<close>

datatype ('t, 'r) event = Data 't | QueryEnd 'r | End | ErrorEvent error

text \<open>
  One run of \<open>_execute\<close>: the world it leaves, the events it emitted on \<open>csvTransform\<close>, and
  whether the check after the polling loop found \<open>isTimeout\<close> set.
\<close>

record ('t, 'r) execution =
  final :: "'r world"
  emitted :: "('t, 'r) event list"
  timedOut :: bool

text \<open>
  \<open>_execute\<close>: wait for a slot, run the \<open>try\<close> block; on an exception release the slot and
  emit \<open>error\<close>; otherwise emit \<open>query_end\<close>, release the slot and end the transform.
\<close>

definition priv_execute ::
  "string \<Rightarrow> nat \<Rightarrow> string option \<Rightarrow> AthenaClientConfig \<Rightarrow> 'r world \<Rightarrow>
   ('t, 'r) execution option" where
  "priv_execute query maxResult nextToken config w =
     (case waitForSlot (others w) w of
        None \<Rightarrow> None
      | Some (admitted, sleeps, remaining) \<Rightarrow>
          (case tryBlock query maxResult nextToken config
                  (admitted\<lparr>now := now admitted + sleeps *
                               orDefault (execRightCheckInterval config)
                                 defaultExecRightCheckInterval,
                             others := remaining\<rparr>) of
             None \<Rightarrow> None
           | Some (Inl err, t, w') \<Rightarrow>
               Some \<lparr>final = endQuery (w'\<lparr>trace := trace w' @ [SlotEndQuery]\<rparr>),
                     emitted = [ErrorEvent err],
                     timedOut = t\<rparr>
           | Some (Inr resultSet, t, w') \<Rightarrow>
               Some \<lparr>final = endQuery (w'\<lparr>trace := trace w' @ [SlotEndQuery]\<rparr>),
                     emitted = [QueryEnd resultSet, End],
                     timedOut = t\<rparr>))"

text \<open>
  \<open>execute\<close> copies the configuration, creates the transform and starts \<open>_execute\<close>; the
  object it returns offers the two views of that one run.
\<close>

definition execute ::
  "string \<Rightarrow> nat \<Rightarrow> string option \<Rightarrow> AthenaClientConfig \<Rightarrow> 'r world \<Rightarrow>
   ('t, 'r) execution option" where
  "execute query maxResult nextToken config w = priv_execute query maxResult nextToken config w"

text \<open>
  The closure of \<open>toPromise\<close>: the array \<open>records\<close>, the variable \<open>resultSet\<close> (undefined
  at first) and the promise, which is pending (\<open>None\<close>) until the first \<open>resolve\<close> or \<open>reject\<close>
  and ignores later ones.
\<close>

record ('t, 'r) listener =
  records :: "'t list"
  resultSet :: "'r option"
  promise :: "'r option settled option"

fun on_event :: "('t, 'r) listener \<Rightarrow> ('t, 'r) event \<Rightarrow> ('t, 'r) listener" where
  "on_event l (Data record) = l\<lparr>records := records l @ [record]\<rparr>"
| "on_event l (QueryEnd q) = l\<lparr>resultSet := Some q\<rparr>"
| "on_event l End =
     (if promise l = None then l\<lparr>promise := Some (Resolved (resultSet l))\<rparr> else l)"
| "on_event l (ErrorEvent err) =
     (if promise l = None then l\<lparr>promise := Some (Rejected err)\<rparr> else l)"

definition listen :: "('t, 'r) event list \<Rightarrow> ('t, 'r) listener" where
  "listen events = foldl on_event \<lparr>records = [], resultSet = None, promise = None\<rparr> events"

definition toPromise :: "('t, 'r) execution \<Rightarrow> 'r option settled option" where
  "toPromise x = promise (listen (emitted x))"

definition toStream :: "('t, 'r) execution \<Rightarrow> ('t, 'r) event list" where
  "toStream x = emitted x"

section \<open>Scripts and sample inputs\<close>

text \<open>A script of failed SDK calls: each reply is a failure with its latency.\<close>

definition failures :: "(nat \<times> AWSError) list \<Rightarrow> (nat \<times> 'a reply) list" where
  "failures errs = map (\<lambda>(latency, err). (latency, Failure err)) errs"

text \<open>
  A reply settles a retried call, whatever the number of retries made, when it is a
  success or a failure that is not transient. A script is answered when it ends with such
  a reply: the service does not leave the call without a final answer.
\<close>

fun settles :: "'a reply \<Rightarrow> bool" where
  "settles (Failure err) = (\<not> isRetryException err)"
| "settles (Success data) = True"

definition answered :: "(nat \<times> 'a reply) list \<Rightarrow> bool" where
  "answered script \<longleftrightarrow> script \<noteq> [] \<and> settles (snd (last script))"

text \<open>
  A reply to a status check ends the polling when it is a failure that is not transient
  or a status other than \<open>QUEUED\<close> and \<open>RUNNING\<close>. The script of status checks is decided
  when it ends with such a reply.
\<close>

fun ends_polling :: "QueryExecution reply \<Rightarrow> bool" where
  "ends_polling (Failure err) = (\<not> isRetryException err)"
| "ends_polling (Success queryExecution) =
     (State (Status queryExecution) \<noteq> ''QUEUED'' \<and> State (Status queryExecution) \<noteq> ''RUNNING'')"

definition decided :: "(nat \<times> QueryExecution reply) list \<Rightarrow> bool" where
  "decided script \<longleftrightarrow> script \<noteq> [] \<and> ends_polling (snd (last script))"

text \<open>A configuration with every option left out, and two SDK errors.\<close>

definition sample_config :: AthenaClientConfig where
  "sample_config =
     \<lparr>bucketUri = ''s3://bucket/out'', baseRetryWait = None, retryWaitMax = None,
      retryCountMax = None, database = None, encryptionOption = None,
      encryptionKmsKey = None, workGroup = None, pollingInterval = None,
      queryTimeout = None, config_concurrentExecMax = None,
      execRightCheckInterval = None, skipFetchResult = None\<rparr>"

definition throttling :: AWSError where
  "throttling = \<lparr>code = ''ThrottlingException'', message = ''Rate exceeded''\<rparr>"

definition accessDenied :: AWSError where
  "accessDenied = \<lparr>code = ''AccessDeniedException'', message = ''Not authorized''\<rparr>"

text \<open>
  A service that accepts the query, reports \<open>QUEUED\<close>, \<open>RUNNING\<close> and \<open>SUCCEEDED\<close> at
  successive checks, refuses a cancel, and returns one page of three rows.
\<close>

definition status_reply :: "string \<Rightarrow> string option \<Rightarrow> QueryExecution" where
  "status_reply state reason = \<lparr>Status = \<lparr>State = state, StateChangeReason = reason\<rparr>\<rparr>"

definition sample_world :: "string list world" where
  "sample_world =
     \<lparr>concurrentExecMax = 5, concurrentExecNum = 0, now = 0,
      startQueryExecution = [(10, Success ''id-1'')],
      getQueryExecution_replies =
        [(5, Success (status_reply ''QUEUED'' None)),
         (5, Success (status_reply ''RUNNING'' None)),
         (5, Success (status_reply ''SUCCEEDED'' None))],
      stopQueryExecution = [(3, Failure accessDenied)],
      getQueryResults_replies = [(7, Success [''1'', ''2'', ''3''])],
      others = [], trace = []\<rparr>"

text \<open>Which numbers are doubles, for the evaluation of \<open>Math_pow\<close>.\<close>

lemma fits_small: "x < 2 ^ 53 \<Longrightarrow> fits e x"
  by (cases e) simp_all


lemma fits_double: "fits e x \<Longrightarrow> fits (Suc e) (2 * x)"
  by simp

lemma representable_small: "x \<le> 2 ^ 53 \<Longrightarrow> representable x"
proof (cases "x < 2 ^ 53")
  case True
  then show ?thesis by (simp add: representable_def fits_small)
next
  case False
  assume "x \<le> 2 ^ 53"
  with False have x: "x = 2 * 2 ^ 52" by simp
  have "fits 970 (2 ^ 52)" by (rule fits_small) simp
  then have "fits (Suc 970) (2 * 2 ^ 52)" by (rule fits_double)
  then show ?thesis by (simp add: representable_def x)
qed



lemmas eval_defs =
  request_startQuery_def stopQuery_def getQueryExecution_def isRetryException_def canRetry_def
  orDefault_def defaultRetryCountMax_def defaultBaseRetryWait_def defaultRetryWaitMax_def
  startQuery_wait_def stopQuery_wait_def getQueryExecution_wait_def sample_config_def
  throttling_def accessDenied_def timer_delay_def Math_pow_def representable_small

lemmas run_defs =
  priv_execute_def execute_def tryBlock_def polling_def afterPolling_def pollLoop.simps
  checkQuery_def
  checkQuery_state_def eval_defs sample_world_def status_reply_def canStartQuery_def
  client_startQuery_def endQuery_def after_call_def sleep_def setTimeout_def isTimeout_def
  defaultQueryTimeout_def defaultPollingInterval_def defaultExecRightCheckInterval_def
  orDefaultStr_def startQuery_params_def Let_def

section \<open>The retry loop\<close>

lemma failures_simps [simp]:
  "failures [] = []"
  "failures ((latency, err) # errs) = (latency, Failure err) # failures errs"
  by (simp_all add: failures_def)


lemma loopFunc_retries_bounded:
  "loopFunc wait delay config n script = Some d \<Longrightarrow>
   n + length (waits d) \<le> max n (orDefault (retryCountMax config) defaultRetryCountMax)"
proof (induction wait delay config n script arbitrary: d rule: loopFunc.induct)
  case (1 wait delay config retryCount)
  then show ?case by simp
next
  case (2 wait delay config retryCount latency err script)
  then show ?case
    by (fastforce simp: canRetry_def split: if_splits option.splits)
next
  case (3 wait delay config retryCount latency data script)
  then show ?case by auto
qed

lemma loopFunc_success_after:
  "list_all (\<lambda>(latency, err). isRetryException err) errs \<Longrightarrow>
   n + length errs \<le> orDefault (retryCountMax config) defaultRetryCountMax \<Longrightarrow>
   \<exists>d. loopFunc wait delay config n (failures errs @ (latency, Success data) # tail) = Some d \<and>
       outcome d = Resolved data \<and> length (waits d) = length errs \<and> rest d = tail"
proof (induction errs arbitrary: n)
  case Nil
  then show ?case by simp
next
  case (Cons a errs)
  obtain l e where a: "a = (l, e)" by (cases a)
  from Cons.prems a have retry: "isRetryException e" "canRetry n config"
    and rest: "list_all (\<lambda>(latency, err). isRetryException err) errs"
    and bound: "Suc n + length errs \<le> orDefault (retryCountMax config) defaultRetryCountMax"
    by (auto simp: canRetry_def)
  from Cons.IH [OF rest bound] obtain d where
    "loopFunc wait delay config (Suc n) (failures errs @ (latency, Success data) # tail) = Some d"
    "outcome d = Resolved data" "length (waits d) = length errs" "rest d = tail"
    by blast
  with retry a show ?case by simp
qed

lemma loopFunc_exhausted:
  "list_all (\<lambda>(latency, err). isRetryException err) errs \<Longrightarrow>
   n + length errs = orDefault (retryCountMax config) defaultRetryCountMax \<Longrightarrow>
   \<exists>d. loopFunc wait delay config n (failures errs @ (latency, Failure err) # tail) = Some d \<and>
       outcome d = Rejected (Aws err) \<and> length (waits d) = length errs \<and> rest d = tail"
proof (induction errs arbitrary: n)
  case Nil
  then show ?case by (simp add: canRetry_def)
next
  case (Cons a errs)
  obtain l e where a: "a = (l, e)" by (cases a)
  from Cons.prems a have retry: "isRetryException e" "canRetry n config"
    and rest: "list_all (\<lambda>(latency, err). isRetryException err) errs"
    and bound: "Suc n + length errs = orDefault (retryCountMax config) defaultRetryCountMax"
    by (auto simp: canRetry_def)
  from Cons.IH [OF rest bound] obtain d where
    "loopFunc wait delay config (Suc n) (failures errs @ (latency, Failure err) # tail) = Some d"
    "outcome d = Rejected (Aws err)" "length (waits d) = length errs" "rest d = tail"
    by blast
  with retry a show ?case by simp
qed

lemma loopFunc_answered:
  "answered script \<Longrightarrow> \<exists>d. loopFunc wait delay config n script = Some d"
proof (induction script arbitrary: n)
  case Nil
  then show ?case by (simp add: answered_def)
next
  case (Cons a script)
  obtain latency r where a: "a = (latency, r)" by (cases a)
  show ?case
  proof (cases r)
    case (Success data)
    with a show ?thesis by simp
  next
    case (Failure err)
    show ?thesis
    proof (cases "isRetryException err \<and> canRetry n config")
      case False
      with a Failure show ?thesis by auto
    next
      case True
      with Cons.prems a Failure have "script \<noteq> []"
        by (auto simp: answered_def)
      with Cons.prems have "answered script"
        by (simp add: answered_def)
      from Cons.IH [OF this] obtain d where
        "loopFunc wait delay config (Suc n) script = Some d" by blast
      with True a Failure show ?thesis by simp
    qed
  qed
qed

lemma loopFunc_settled_by:
  "loopFunc wait delay config n script = Some d \<Longrightarrow>
   \<exists>pre latency r. script = pre @ (latency, r) # rest d \<and>
     outcome d = (case r of Failure err \<Rightarrow> Rejected (Aws err) | Success data \<Rightarrow> Resolved data)"
proof (induction script arbitrary: n d)
  case Nil
  then show ?case by simp
next
  case (Cons a script)
  obtain latency r where a: "a = (latency, r)" by (cases a)
  show ?case
  proof (cases r)
    case (Success data)
    with Cons.prems a have "rest d = script" "outcome d = Resolved data"
      by auto
    with a Success have "a # script = [] @ (latency, r) # rest d \<and>
        outcome d = (case r of Failure err \<Rightarrow> Rejected (Aws err) | Success data \<Rightarrow> Resolved data)"
      by simp
    then show ?thesis by blast
  next
    case (Failure err)
    show ?thesis
    proof (cases "isRetryException err \<and> canRetry n config")
      case False
      with Cons.prems a Failure have "rest d = script" "outcome d = Rejected (Aws err)"
        by auto
      with a Failure have "a # script = [] @ (latency, r) # rest d \<and>
          outcome d = (case r of Failure err \<Rightarrow> Rejected (Aws err) | Success data \<Rightarrow> Resolved data)"
        by simp
      then show ?thesis by blast
    next
      case True
      with Cons.prems a Failure obtain d' where
        d': "loopFunc wait delay config (Suc n) script = Some d'"
        and d: "rest d = rest d'" "outcome d = outcome d'"
        by (auto split: option.splits)
      from Cons.IH [OF d'] obtain pre l' r' where
        "script = pre @ (l', r') # rest d'"
        "outcome d' = (case r' of Failure err \<Rightarrow> Rejected (Aws err) | Success data \<Rightarrow> Resolved data)"
        by blast
      with d have "a # script = (a # pre) @ (l', r') # rest d \<and>
          outcome d = (case r' of Failure err \<Rightarrow> Rejected (Aws err) | Success data \<Rightarrow> Resolved data)"
        by simp
      then show ?thesis by blast
    qed
  qed
qed


section \<open>Backoff formulas\<close>




section \<open>Submission backoff\<close>



section \<open>The retry cap\<close>

text \<open>
  Claim C7, as amended. For each retried operation (\<open>startQuery\<close>, \<open>stopQuery\<close>,
  \<open>getQueryExecution\<close>): \<open>k\<close> transient errors with \<open>k \<le> retryCountMax\<close> followed by a
  success give an overall success after exactly \<open>k\<close> retries; when the first
  \<open>retryCountMax\<close> replies are transient errors and the next reply is a transient error
  too, the promise rejects with that error after exactly \<open>retryCountMax\<close> retries and no
  further call is made.
\<close>

theorem retry_cap:
  assumes "list_all (\<lambda>(latency, err). isRetryException err) errs"
  shows
    "(length errs \<le> orDefault (retryCountMax config) defaultRetryCountMax \<longrightarrow>
        (\<exists>d. request_startQuery query config (failures errs @ (l1, Success queryId) # tail1) = Some d \<and>
             outcome d = Resolved queryId \<and> length (waits d) = length errs \<and> rest d = tail1) \<and>
        (\<exists>d. stopQuery queryId config (failures errs @ (l2, Success ()) # tail2) = Some d \<and>
             outcome d = Resolved () \<and> length (waits d) = length errs \<and> rest d = tail2) \<and>
        (\<exists>d. getQueryExecution queryId config (failures errs @ (l3, Success qe) # tail3) = Some d \<and>
             outcome d = Resolved qe \<and> length (waits d) = length errs \<and> rest d = tail3)) \<and>
     (length errs = orDefault (retryCountMax config) defaultRetryCountMax \<and> isRetryException err \<longrightarrow>
        (\<exists>d. request_startQuery query config (failures errs @ (l1, Failure err) # tail1) = Some d \<and>
             outcome d = Rejected (Aws err) \<and> length (waits d) = length errs \<and> rest d = tail1) \<and>
        (\<exists>d. stopQuery queryId config (failures errs @ (l2, Failure err) # tail2) = Some d \<and>
             outcome d = Rejected (Aws err) \<and> length (waits d) = length errs \<and> rest d = tail2) \<and>
        (\<exists>d. getQueryExecution queryId config (failures errs @ (l3, Failure err) # tail3) = Some d \<and>
             outcome d = Rejected (Aws err) \<and> length (waits d) = length errs \<and> rest d = tail3))"
proof (intro conjI impI)
  assume k: "length errs \<le> orDefault (retryCountMax config) defaultRetryCountMax"
  then have k0: "0 + length errs \<le> orDefault (retryCountMax config) defaultRetryCountMax"
    by simp
  show "\<exists>d. request_startQuery query config (failures errs @ (l1, Success queryId) # tail1) = Some d \<and>
             outcome d = Resolved queryId \<and> length (waits d) = length errs \<and> rest d = tail1"
    unfolding request_startQuery_def by (rule loopFunc_success_after [OF assms k0])
  show "\<exists>d. stopQuery queryId config (failures errs @ (l2, Success ()) # tail2) = Some d \<and>
             outcome d = Resolved () \<and> length (waits d) = length errs \<and> rest d = tail2"
    unfolding stopQuery_def by (rule loopFunc_success_after [OF assms k0])
  show "\<exists>d. getQueryExecution queryId config (failures errs @ (l3, Success qe) # tail3) = Some d \<and>
             outcome d = Resolved qe \<and> length (waits d) = length errs \<and> rest d = tail3"
    unfolding getQueryExecution_def by (rule loopFunc_success_after [OF assms k0])
next
  assume "length errs = orDefault (retryCountMax config) defaultRetryCountMax \<and> isRetryException err"
  then have k0: "0 + length errs = orDefault (retryCountMax config) defaultRetryCountMax"
    by simp
  show "\<exists>d. request_startQuery query config (failures errs @ (l1, Failure err) # tail1) = Some d \<and>
             outcome d = Rejected (Aws err) \<and> length (waits d) = length errs \<and> rest d = tail1"
    unfolding request_startQuery_def by (rule loopFunc_exhausted [OF assms k0])
  show "\<exists>d. stopQuery queryId config (failures errs @ (l2, Failure err) # tail2) = Some d \<and>
             outcome d = Rejected (Aws err) \<and> length (waits d) = length errs \<and> rest d = tail2"
    unfolding stopQuery_def by (rule loopFunc_exhausted [OF assms k0])
  show "\<exists>d. getQueryExecution queryId config (failures errs @ (l3, Failure err) # tail3) = Some d \<and>
             outcome d = Rejected (Aws err) \<and> length (waits d) = length errs \<and> rest d = tail3"
    unfolding getQueryExecution_def by (rule loopFunc_exhausted [OF assms k0])
qed

text \<open>
  The witness: with \<open>retryCountMax = 2\<close>, two throttling errors and then a success
  succeed after two retries; two throttling errors and a third one reject.
\<close>

theorem retry_cap_witness:
  "(\<exists>d. request_startQuery ''SELECT 1'' (sample_config\<lparr>retryCountMax := Some 2\<rparr>)
          (failures [(5, throttling), (5, throttling)] @ (5, Success ''id-1'') # []) = Some d \<and>
        outcome d = Resolved ''id-1'' \<and> length (waits d) = 2) \<and>
   (\<exists>d. request_startQuery ''SELECT 1'' (sample_config\<lparr>retryCountMax := Some 2\<rparr>)
          (failures [(5, throttling), (5, throttling)] @
           (5, Failure throttling) # [(5, Success ''id-1'')]) = Some d \<and>
        outcome d = Rejected (Aws throttling) \<and> length (waits d) = 2 \<and>
        rest d = [(5, Success ''id-1'')])"
proof -
  let ?config = "sample_config\<lparr>retryCountMax := Some 2\<rparr>"
  let ?errs = "[(5::nat, throttling), (5, throttling)]"
  have t: "list_all (\<lambda>(latency, err). isRetryException err) ?errs"
    by (simp add: isRetryException_def throttling_def)
  have c: "length ?errs = orDefault (retryCountMax ?config) defaultRetryCountMax"
    by (simp add: orDefault_def)
  have r: "isRetryException throttling"
    by (simp add: isRetryException_def throttling_def)
  have n: "length ?errs = 2"
    by simp
  note cap = retry_cap [where errs = ?errs and config = ?config and query = "''SELECT 1''"
      and queryId = "''id-1''" and ?l1.0 = 5 and ?l2.0 = 5 and ?l3.0 = 5 and ?tail2.0 = "[]"
      and ?tail3.0 = "[]" and err = throttling
      and qe = "\<lparr>Status = \<lparr>State = ''RUNNING'', StateChangeReason = None\<rparr>\<rparr>", OF t]
  from cap [where ?tail1.0 = "[]"] c
  have "\<exists>d. request_startQuery ''SELECT 1'' ?config
          (failures ?errs @ (5, Success ''id-1'') # []) = Some d \<and>
        outcome d = Resolved ''id-1'' \<and> length (waits d) = length ?errs"
    by fastforce
  moreover
  from cap [where ?tail1.0 = "[(5, Success ''id-1'')]"] c r
  have "\<exists>d. request_startQuery ''SELECT 1'' ?config
          (failures ?errs @ (5, Failure throttling) # [(5, Success ''id-1'')]) = Some d \<and>
        outcome d = Rejected (Aws throttling) \<and> length (waits d) = length ?errs \<and>
        rest d = [(5, Success ''id-1'')]"
    by fastforce
  ultimately show ?thesis
    unfolding n by blast
qed

text \<open>
  The claim as stated fails at the boundary: with \<open>retryCountMax = 1\<close>, one transient
  error (a sequence of at least \<open>retryCountMax\<close> transient errors) followed by a success
  is retried and succeeds.
\<close>

theorem retry_cap_counterexample:
  "isRetryException throttling \<and>
   orDefault (retryCountMax (sample_config\<lparr>retryCountMax := Some 1\<rparr>)) defaultRetryCountMax
     \<le> length [throttling] \<and>
   request_startQuery ''SELECT 1'' (sample_config\<lparr>retryCountMax := Some 1\<rparr>)
     [(5, Failure throttling), (5, Success ''id-1'')] =
   Some \<lparr>outcome = Resolved ''id-1'', waits = [200], elapsed = 210, rest = []\<rparr>"
  by (simp add: eval_defs)

section \<open>The result-page fetch\<close>

text \<open>
  Claim C3. \<open>getQueryResults\<close> is not wrapped in the retry loop: a transient error that
  \<open>startQuery\<close>, \<open>stopQuery\<close> and \<open>getQueryExecution\<close> retry is surfaced at once, without
  any wait, and the next reply of the service is never asked for.
\<close>

theorem getQueryResults_not_retried:
  "isRetryException throttling \<and> canRetry 0 sample_config \<and>
   getQueryResults [(5, Failure throttling), (5, Success page)] =
     Some \<lparr>outcome = Rejected (Aws throttling), waits = [], elapsed = 5,
           rest = [(5, Success page)]\<rparr> \<and>
   request_startQuery ''SELECT 1'' sample_config [(5, Failure throttling), (5, Success ''id-1'')] =
     Some \<lparr>outcome = Resolved ''id-1'', waits = [200], elapsed = 210, rest = []\<rparr> \<and>
   stopQuery ''id-1'' sample_config [(5, Failure throttling), (5, Success ())] =
     Some \<lparr>outcome = Resolved (), waits = [Exact 1], elapsed = 11, rest = []\<rparr> \<and>
   getQueryExecution ''id-1'' sample_config [(5, Failure throttling), (5, Success qe)] =
     Some \<lparr>outcome = Resolved qe, waits = [Exact 1], elapsed = 11, rest = []\<rparr>"
  by (simp add: eval_defs)

section \<open>The admission counter\<close>

text \<open>
  Claim C9, as amended. After any call of the client's \<open>startQuery\<close> the count is at most
  the ceiling, and after any call of \<open>endQuery\<close> it is at least zero. Starting from a count
  in \<open>[0, ceiling]\<close>, the count stays in \<open>[0, ceiling]\<close> through every sequence of slot
  operations and ceiling changes in which the ceiling is never set below the current
  count. \<open>setConcurrentExecMax\<close> itself never changes the count.
\<close>

theorem counter_bounds:
  "concurrentExecNum (client_startQuery g) \<le> concurrentExecMax (client_startQuery g) \<and>
   0 \<le> concurrentExecNum (endQuery g) \<and>
   concurrentExecNum (setConcurrentExecMax val g) = concurrentExecNum g \<and>
   (0 \<le> concurrentExecNum g \<and> concurrentExecNum g \<le> concurrentExecMax g \<and>
    respects_ceiling g ops \<longrightarrow>
      0 \<le> concurrentExecNum (foldl other_step g ops) \<and>
      concurrentExecNum (foldl other_step g ops) \<le> concurrentExecMax (foldl other_step g ops))"
proof -
  have inv: "0 \<le> concurrentExecNum (foldl other_step g ops) \<and>
      concurrentExecNum (foldl other_step g ops) \<le> concurrentExecMax (foldl other_step g ops)"
    if "0 \<le> concurrentExecNum g" "concurrentExecNum g \<le> concurrentExecMax g"
       "respects_ceiling g ops"
    using that
  proof (induction g ops rule: respects_ceiling.induct)
    case (1 g)
    then show ?case by simp
  next
    case (2 g ops)
    then show ?case by (simp add: client_startQuery_def)
  next
    case (3 g ops)
    then show ?case by (simp add: endQuery_def)
  next
    case (4 g val ops)
    then show ?case by (simp add: setConcurrentExecMax_def)
  qed
  show ?thesis
    using inv by (simp add: client_startQuery_def endQuery_def setConcurrentExecMax_def)
qed

theorem counter_bounds_witness:
  "respects_ceiling initial_globals
     [OtherStartQuery, OtherStartQuery, OtherSetConcurrentExecMax 2, OtherStartQuery, OtherEndQuery] \<and>
   concurrentExecNum (foldl other_step initial_globals
     [OtherStartQuery, OtherStartQuery, OtherSetConcurrentExecMax 2, OtherStartQuery, OtherEndQuery]) = 1 \<and>
   0 \<le> concurrentExecNum (foldl other_step initial_globals
     [OtherStartQuery, OtherStartQuery, OtherSetConcurrentExecMax 2, OtherStartQuery, OtherEndQuery]) \<and>
   concurrentExecNum (foldl other_step initial_globals
     [OtherStartQuery, OtherStartQuery, OtherSetConcurrentExecMax 2, OtherStartQuery, OtherEndQuery])
   \<le> concurrentExecMax (foldl other_step initial_globals
     [OtherStartQuery, OtherStartQuery, OtherSetConcurrentExecMax 2, OtherStartQuery, OtherEndQuery])"
  using counter_bounds [of initial_globals 2
    "[OtherStartQuery, OtherStartQuery, OtherSetConcurrentExecMax 2, OtherStartQuery, OtherEndQuery]"]
  by (simp add: initial_globals_def client_startQuery_def endQuery_def setConcurrentExecMax_def)

text \<open>
  The claim as stated fails when the ceiling is lowered while executions run: three
  executions are running, the ceiling is set to 1, one execution ends; the count is 2,
  above the ceiling.
\<close>

theorem counter_bounds_counterexample:
  "concurrentExecNum (foldl other_step initial_globals
     [OtherStartQuery, OtherStartQuery, OtherStartQuery, OtherSetConcurrentExecMax 1,
      OtherEndQuery]) = 2 \<and>
   concurrentExecMax (foldl other_step initial_globals
     [OtherStartQuery, OtherStartQuery, OtherStartQuery, OtherSetConcurrentExecMax 1,
      OtherEndQuery]) = 1"
  by (simp add: initial_globals_def client_startQuery_def endQuery_def setConcurrentExecMax_def)

section \<open>What one execution changes\<close>

lemma other_step_globals_only:
  "(other_step g a)\<lparr>concurrentExecMax := m, concurrentExecNum := n\<rparr> =
   g\<lparr>concurrentExecMax := m, concurrentExecNum := n\<rparr>"
  by (cases a) (simp_all add: client_startQuery_def endQuery_def setConcurrentExecMax_def)

lemma foldl_other_step_globals_only:
  "(foldl other_step g batch)\<lparr>concurrentExecMax := m, concurrentExecNum := n\<rparr> =
   g\<lparr>concurrentExecMax := m, concurrentExecNum := n\<rparr>"
  by (induction batch arbitrary: g) (simp_all add: other_step_globals_only)

lemma waitForSlot_admitted:
  "waitForSlot batches g = Some (admitted, sleeps, remaining) \<Longrightarrow>
   canStartQuery admitted \<and>
   admitted\<lparr>concurrentExecMax := m, concurrentExecNum := n\<rparr> =
   g\<lparr>concurrentExecMax := m, concurrentExecNum := n\<rparr>"
proof (induction batches arbitrary: g sleeps)
  case Nil
  then show ?case by (auto split: if_splits)
next
  case (Cons batch batches)
  show ?case
  proof (cases "canStartQuery g")
    case True
    with Cons.prems show ?thesis by auto
  next
    case False
    with Cons.prems obtain k where
      rec: "waitForSlot batches (foldl other_step g batch) = Some (admitted, k, remaining)"
      by (auto split: option.splits)
    from Cons.IH [OF rec] show ?thesis
      by (simp add: foldl_other_step_globals_only)
  qed
qed

lemma pollLoop_changes:
  "pollLoop config timer queryId w = Some (r, w') \<Longrightarrow>
   w'\<lparr>now := t, getQueryExecution_replies := s, trace := a\<rparr> =
   w\<lparr>now := t, getQueryExecution_replies := s, trace := a\<rparr> \<and>
   (\<exists>n. trace w' = trace w @ replicate n (CallGetQueryExecution queryId))"
proof (induction config timer queryId w arbitrary: r w' rule: pollLoop.induct)
  case (1 config timer queryId w)
  show ?case
  proof (cases "isTimeout timer (now w)")
    case True
    with "1.prems" have "w' = w"
      by (simp add: pollLoop.simps [of config timer queryId w])
    moreover have "trace w = trace w @ replicate 0 (CallGetQueryExecution queryId)"
      by simp
    ultimately show ?thesis by blast
  next
    case False
    with "1.prems" obtain d where
      d: "checkQuery queryId config (getQueryExecution_replies w) = Some d"
      by (auto simp: pollLoop.simps [of config timer queryId w] split: option.splits)
    let ?w1 = "after_call (CallGetQueryExecution queryId) d (w\<lparr>getQueryExecution_replies := rest d\<rparr>)"
    have w1: "?w1 = w\<lparr>now := now w + elapsed d, getQueryExecution_replies := rest d,
        trace := trace w @ replicate (Suc (length (waits d))) (CallGetQueryExecution queryId)\<rparr>"
      by (simp add: after_call_def)
    have direct: ?thesis if "w' = ?w1"
    proof -
      have "trace w' = trace w @ replicate (Suc (length (waits d))) (CallGetQueryExecution queryId)"
        unfolding that w1 by simp
      moreover have "w'\<lparr>now := t, getQueryExecution_replies := s, trace := a\<rparr> =
          w\<lparr>now := t, getQueryExecution_replies := s, trace := a\<rparr>"
        unfolding that w1 by simp
      ultimately show ?thesis by blast
    qed
    show ?thesis
    proof (cases "outcome d")
      case (Rejected err)
      with False d "1.prems" have "w' = ?w1"
        by (simp add: pollLoop.simps [of config timer queryId w])
      then show ?thesis by (rule direct)
    next
      case (Resolved isSucceed)
      show ?thesis
      proof (cases isSucceed)
        case True
        with Resolved False d "1.prems" have "w' = ?w1"
          by (simp add: pollLoop.simps [of config timer queryId w])
        then show ?thesis by (rule direct)
      next
        case notyet: False
        let ?w2 = "sleep (orDefault (pollingInterval config) defaultPollingInterval) ?w1"
        from notyet Resolved False d "1.prems"
        have rec: "pollLoop config timer queryId ?w2 = Some (r, w')"
          by (simp add: pollLoop.simps [of config timer queryId w])
        from "1.IH" [OF False d Resolved notyet rec] obtain n where
          eq: "w'\<lparr>now := t, getQueryExecution_replies := s, trace := a\<rparr> =
               ?w2\<lparr>now := t, getQueryExecution_replies := s, trace := a\<rparr>"
          and tr: "trace w' = trace ?w2 @ replicate n (CallGetQueryExecution queryId)"
          by blast
        from eq have "w'\<lparr>now := t, getQueryExecution_replies := s, trace := a\<rparr> =
               w\<lparr>now := t, getQueryExecution_replies := s, trace := a\<rparr>"
          by (simp add: w1 sleep_def)
        moreover from tr have "trace w' =
            trace w @ replicate (Suc (length (waits d)) + n) (CallGetQueryExecution queryId)"
          by (simp add: w1 sleep_def replicate_add)
        ultimately show ?thesis by blast
      qed
    qed
  qed
qed


lemma afterPolling_changes:
  assumes "afterPolling config timer queryId maxResult nextToken w = Some (r, t, w')"
  shows "w'\<lparr>now := n, stopQueryExecution := s, getQueryResults_replies := g, trace := a\<rparr> =
         w\<lparr>now := n, stopQueryExecution := s, getQueryResults_replies := g, trace := a\<rparr> \<and>
         (\<exists>acts. trace w' = trace w @ acts \<and>
            SlotStartQuery \<notin> set acts \<and> SlotEndQuery \<notin> set acts)"
proof (cases "isTimeout timer (now w)")
  case True
  with assms obtain c where "stopQuery queryId config (stopQueryExecution w) = Some c"
    and w': "w' = after_call (CallStopQueryExecution queryId) c (w\<lparr>stopQueryExecution := rest c\<rparr>)"
    by (auto simp: afterPolling_def split: option.splits)
  have "trace w' = trace w @ replicate (Suc (length (waits c))) (CallStopQueryExecution queryId)"
    unfolding w' by (simp add: after_call_def)
  moreover have "SlotStartQuery \<notin> set (replicate (Suc (length (waits c))) (CallStopQueryExecution queryId))"
    "SlotEndQuery \<notin> set (replicate (Suc (length (waits c))) (CallStopQueryExecution queryId))"
    by simp_all
  moreover have "w'\<lparr>now := n, stopQueryExecution := s, getQueryResults_replies := g, trace := a\<rparr> =
         w\<lparr>now := n, stopQueryExecution := s, getQueryResults_replies := g, trace := a\<rparr>"
    unfolding w' by (simp add: after_call_def)
  ultimately show ?thesis by blast
next
  case False
  with assms obtain f where "getQueryResults (getQueryResults_replies w) = Some f"
    and w': "w' = after_call (CallGetQueryResults queryId maxResult nextToken) f
                    (w\<lparr>getQueryResults_replies := rest f\<rparr>)"
    by (auto simp: afterPolling_def split: option.splits)
  have "trace w' = trace w @ replicate (Suc (length (waits f)))
                               (CallGetQueryResults queryId maxResult nextToken)"
    unfolding w' by (simp add: after_call_def)
  moreover have "SlotStartQuery \<notin> set (replicate (Suc (length (waits f)))
                               (CallGetQueryResults queryId maxResult nextToken))"
    "SlotEndQuery \<notin> set (replicate (Suc (length (waits f)))
                               (CallGetQueryResults queryId maxResult nextToken))"
    by simp_all
  moreover have "w'\<lparr>now := n, stopQueryExecution := s, getQueryResults_replies := g, trace := a\<rparr> =
         w\<lparr>now := n, stopQueryExecution := s, getQueryResults_replies := g, trace := a\<rparr>"
    unfolding w' by (simp add: after_call_def)
  ultimately show ?thesis by blast
qed

text \<open>The paths through the \<open>try\<close> block.\<close>

lemma tryBlock_paths:
  assumes "tryBlock query maxResult nextToken config w = Some (r, t, w')"
  obtains
    (submit_failed) s err where
      "request_startQuery query config (startQueryExecution w) = Some s"
      "outcome s = Rejected err" "r = Inl err" "\<not> t"
      "w' = after_call (CallStartQueryExecution (startQuery_params query config)) s
              ((client_startQuery (w\<lparr>trace := trace w @ [SlotStartQuery]\<rparr>))
                 \<lparr>startQueryExecution := rest s\<rparr>)"
  | (poll_failed) s queryId err where
      "request_startQuery query config (startQueryExecution w) = Some s"
      "outcome s = Resolved queryId" "r = Inl err" "\<not> t"
      "pollLoop config
         (setTimeout config (now w + elapsed s)) queryId
         (after_call (CallStartQueryExecution (startQuery_params query config)) s
              ((client_startQuery (w\<lparr>trace := trace w @ [SlotStartQuery]\<rparr>))
                 \<lparr>startQueryExecution := rest s\<rparr>)) = Some (Inl err, w')"
  | (polled) s queryId w3 where
      "request_startQuery query config (startQueryExecution w) = Some s"
      "outcome s = Resolved queryId"
      "pollLoop config
         (setTimeout config (now w + elapsed s)) queryId
         (after_call (CallStartQueryExecution (startQuery_params query config)) s
              ((client_startQuery (w\<lparr>trace := trace w @ [SlotStartQuery]\<rparr>))
                 \<lparr>startQueryExecution := rest s\<rparr>)) = Some (Inr (), w3)"
      "afterPolling config (setTimeout config (now w + elapsed s)) queryId maxResult nextToken w3 =
         Some (r, t, w')"
proof -
  let ?w1 = "client_startQuery (w\<lparr>trace := trace w @ [SlotStartQuery]\<rparr>)"
  have start: "startQueryExecution ?w1 = startQueryExecution w"
    by (simp add: client_startQuery_def)
  from assms obtain s where s: "request_startQuery query config (startQueryExecution w) = Some s"
    by (auto simp: tryBlock_def Let_def start split: option.splits)
  let ?w2 = "after_call (CallStartQueryExecution (startQuery_params query config)) s
               (?w1\<lparr>startQueryExecution := rest s\<rparr>)"
  have now2: "now ?w2 = now w + elapsed s"
    by (simp add: after_call_def client_startQuery_def)
  show thesis
  proof (cases "outcome s")
    case (Rejected err)
    with assms s have "r = Inl err" "\<not> t" "w' = ?w2"
      by (simp_all add: tryBlock_def Let_def start)
    with s Rejected show thesis by (rule submit_failed)
  next
    case (Resolved queryId)
    let ?timer = "setTimeout config (now w + elapsed s)"
    from assms s Resolved have
      tb: "(case pollLoop config ?timer queryId ?w2 of
              None \<Rightarrow> None
            | Some (Inl err, w3) \<Rightarrow> Some (Inl err, False, w3)
            | Some (Inr u, w3) \<Rightarrow> afterPolling config ?timer queryId maxResult nextToken w3) =
           Some (r, t, w')"
      unfolding now2 [symmetric] by (simp add: tryBlock_def polling_def Let_def start)
    then obtain p w3 where p: "pollLoop config ?timer queryId ?w2 = Some (p, w3)"
      by (auto split: option.splits)
    show thesis
    proof (cases p)
      case (Inl err)
      with tb p have "r = Inl err" "\<not> t" "w' = w3"
        by simp_all
      with s Resolved p Inl show thesis
        by (intro poll_failed [of s queryId err]) simp_all
    next
      case (Inr u)
      with tb p have "afterPolling config ?timer queryId maxResult nextToken w3 = Some (r, t, w')"
        by simp
      with s Resolved p Inr show thesis
        by (intro polled [of s queryId w3]) simp_all
    qed
  qed
qed


lemma waitForSlot_frame:
  fixes w :: "'r world"
  assumes "waitForSlot batches w = Some (admitted, sleeps, remaining)"
  shows "trace admitted = trace w" "now admitted = now w"
    "startQueryExecution admitted = startQueryExecution w"
    "getQueryExecution_replies admitted = getQueryExecution_replies w"
    "stopQueryExecution admitted = stopQueryExecution w"
    "getQueryResults_replies admitted = getQueryResults_replies w"
proof -
  from waitForSlot_admitted [OF assms, where m = 0 and n = 0]
  have E: "admitted\<lparr>concurrentExecMax := 0, concurrentExecNum := 0\<rparr> =
           w\<lparr>concurrentExecMax := 0, concurrentExecNum := 0\<rparr>"
    by blast
  show "trace admitted = trace w"
    using arg_cong [OF E, of trace] by simp
  show "now admitted = now w"
    using arg_cong [OF E, of now] by simp
  show "startQueryExecution admitted = startQueryExecution w"
    using arg_cong [OF E, of startQueryExecution] by simp
  show "getQueryExecution_replies admitted = getQueryExecution_replies w"
    using arg_cong [OF E, of getQueryExecution_replies] by simp
  show "stopQueryExecution admitted = stopQueryExecution w"
    using arg_cong [OF E, of stopQueryExecution] by simp
  show "getQueryResults_replies admitted = getQueryResults_replies w"
    using arg_cong [OF E, of getQueryResults_replies] by simp
qed

lemma pollLoop_frame:
  assumes "pollLoop config timer queryId w = Some (r, w')"
  shows "concurrentExecMax w' = concurrentExecMax w" "concurrentExecNum w' = concurrentExecNum w"
    "startQueryExecution w' = startQueryExecution w"
    "stopQueryExecution w' = stopQueryExecution w"
    "getQueryResults_replies w' = getQueryResults_replies w"
proof -
  from pollLoop_changes [OF assms, where t = 0 and s = "[]" and a = "[]"]
  have E: "w'\<lparr>now := 0, getQueryExecution_replies := [], trace := []\<rparr> =
           w\<lparr>now := 0, getQueryExecution_replies := [], trace := []\<rparr>"
    by blast
  show "concurrentExecMax w' = concurrentExecMax w"
    using arg_cong [OF E, of concurrentExecMax] by simp
  show "concurrentExecNum w' = concurrentExecNum w"
    using arg_cong [OF E, of concurrentExecNum] by simp
  show "startQueryExecution w' = startQueryExecution w"
    using arg_cong [OF E, of startQueryExecution] by simp
  show "stopQueryExecution w' = stopQueryExecution w"
    using arg_cong [OF E, of stopQueryExecution] by simp
  show "getQueryResults_replies w' = getQueryResults_replies w"
    using arg_cong [OF E, of getQueryResults_replies] by simp
qed

lemma afterPolling_frame:
  assumes "afterPolling config timer queryId maxResult nextToken w = Some (r, t, w')"
  shows "concurrentExecMax w' = concurrentExecMax w" "concurrentExecNum w' = concurrentExecNum w"
proof -
  from afterPolling_changes [OF assms, where n = 0 and s = "[]" and g = "[]" and a = "[]"]
  have E: "w'\<lparr>now := 0, stopQueryExecution := [], getQueryResults_replies := [], trace := []\<rparr> =
           w\<lparr>now := 0, stopQueryExecution := [], getQueryResults_replies := [], trace := []\<rparr>"
    by blast
  show "concurrentExecMax w' = concurrentExecMax w"
    using arg_cong [OF E, of concurrentExecMax] by simp
  show "concurrentExecNum w' = concurrentExecNum w"
    using arg_cong [OF E, of concurrentExecNum] by simp
qed

text \<open>The \<open>try\<close> block takes the slot first and performs no other slot operation.\<close>

lemma tryBlock_slot:
  assumes "tryBlock query maxResult nextToken config w = Some (r, t, w')"
  shows "(\<exists>acts. trace w' = trace w @ SlotStartQuery # acts \<and>
            SlotStartQuery \<notin> set acts \<and> SlotEndQuery \<notin> set acts) \<and>
         concurrentExecMax w' = concurrentExecMax w \<and>
         concurrentExecNum w' = min (concurrentExecNum w + 1) (concurrentExecMax w)"
proof -
  let ?w1 = "client_startQuery (w\<lparr>trace := trace w @ [SlotStartQuery]\<rparr>)"
  have w2: "trace (after_call (CallStartQueryExecution (startQuery_params query config)) s
              (?w1\<lparr>startQueryExecution := rest s\<rparr>)) =
            trace w @ SlotStartQuery #
              replicate (Suc (length (waits s)))
                (CallStartQueryExecution (startQuery_params query config))"
    "concurrentExecMax (after_call (CallStartQueryExecution (startQuery_params query config)) s
              (?w1\<lparr>startQueryExecution := rest s\<rparr>)) = concurrentExecMax w"
    "concurrentExecNum (after_call (CallStartQueryExecution (startQuery_params query config)) s
              (?w1\<lparr>startQueryExecution := rest s\<rparr>)) =
     min (concurrentExecNum w + 1) (concurrentExecMax w)"
    for s :: "(string, string, nat) finished"
    by (simp_all add: after_call_def client_startQuery_def)
  from assms show ?thesis
  proof (cases rule: tryBlock_paths)
    case (submit_failed s err)
    then show ?thesis
      by (simp add: w2)
  next
    case (poll_failed s queryId err)
    from pollLoop_changes [OF poll_failed(5), where t = 0 and s = "[]" and a = "[]"] obtain n where
      "trace w' = trace w @ SlotStartQuery #
         (replicate (Suc (length (waits s)))
            (CallStartQueryExecution (startQuery_params query config)) @
          replicate n (CallGetQueryExecution queryId))"
      by (auto simp: w2)
    moreover have "SlotStartQuery \<notin> set (replicate (Suc (length (waits s)))
            (CallStartQueryExecution (startQuery_params query config)) @
          replicate n (CallGetQueryExecution queryId))"
      "SlotEndQuery \<notin> set (replicate (Suc (length (waits s)))
            (CallStartQueryExecution (startQuery_params query config)) @
          replicate n (CallGetQueryExecution queryId))"
      by auto
    ultimately have "\<exists>acts. trace w' = trace w @ SlotStartQuery # acts \<and>
            SlotStartQuery \<notin> set acts \<and> SlotEndQuery \<notin> set acts"
      by blast
    with pollLoop_frame(1,2) [OF poll_failed(5)] show ?thesis
      by (simp add: w2)
  next
    case (polled s queryId w3)
    from pollLoop_changes [OF polled(3), where t = 0 and s = "[]" and a = "[]"] obtain n where
      t3: "trace w3 = trace w @ SlotStartQuery #
         (replicate (Suc (length (waits s)))
            (CallStartQueryExecution (startQuery_params query config)) @
          replicate n (CallGetQueryExecution queryId))"
      by (auto simp: w2)
    from afterPolling_changes [OF polled(4), where n = 0 and s = "[]" and g = "[]" and a = "[]"] obtain acts where
      t4: "trace w' = trace w3 @ acts" "SlotStartQuery \<notin> set acts" "SlotEndQuery \<notin> set acts"
      by blast
    let ?acts = "replicate (Suc (length (waits s)))
            (CallStartQueryExecution (startQuery_params query config)) @
          replicate n (CallGetQueryExecution queryId) @ acts"
    from t3 t4 have "trace w' = trace w @ SlotStartQuery # ?acts"
      by simp
    moreover from t4 have "SlotStartQuery \<notin> set ?acts" "SlotEndQuery \<notin> set ?acts"
      by auto
    ultimately have "\<exists>acts. trace w' = trace w @ SlotStartQuery # acts \<and>
            SlotStartQuery \<notin> set acts \<and> SlotEndQuery \<notin> set acts"
      by blast
    with pollLoop_frame(1,2) [OF polled(3)] afterPolling_frame [OF polled(4)] show ?thesis
      by (simp add: w2)
  qed
qed

text \<open>
  \<open>_execute\<close> as a whole, unfolded once: the admission, the \<open>try\<close> block on the admitted
  world, and the release with the event that follows from the block's result.
\<close>

lemma priv_execute_unfold:
  assumes "priv_execute query maxResult nextToken config w = Some x"
  obtains admitted sleeps remaining r t w' where
    "waitForSlot (others w) w = Some (admitted, sleeps, remaining)"
    "tryBlock query maxResult nextToken config
       (admitted\<lparr>now := now admitted + sleeps *
                    orDefault (execRightCheckInterval config) defaultExecRightCheckInterval,
                 others := remaining\<rparr>) = Some (r, t, w')"
    "final x = endQuery (w'\<lparr>trace := trace w' @ [SlotEndQuery]\<rparr>)"
    "timedOut x = t"
    "emitted x = (case r of Inl err \<Rightarrow> [ErrorEvent err] | Inr page \<Rightarrow> [QueryEnd page, End])"
proof -
  from assms obtain admitted sleeps remaining where
    a: "waitForSlot (others w) w = Some (admitted, sleeps, remaining)"
    by (auto simp: priv_execute_def split: option.splits)
  let ?w0 = "admitted\<lparr>now := now admitted + sleeps *
                    orDefault (execRightCheckInterval config) defaultExecRightCheckInterval,
                 others := remaining\<rparr>"
  from assms a obtain r t w' where
    b: "tryBlock query maxResult nextToken config ?w0 = Some (r, t, w')"
    by (auto simp: priv_execute_def split: option.splits)
  from assms a b have
    "x = (case r of
            Inl err \<Rightarrow> \<lparr>final = endQuery (w'\<lparr>trace := trace w' @ [SlotEndQuery]\<rparr>),
                         emitted = [ErrorEvent err], timedOut = t\<rparr>
          | Inr page \<Rightarrow> \<lparr>final = endQuery (w'\<lparr>trace := trace w' @ [SlotEndQuery]\<rparr>),
                         emitted = [QueryEnd page, End], timedOut = t\<rparr>)"
    by (auto simp: priv_execute_def split: sum.splits)
  then have "final x = endQuery (w'\<lparr>trace := trace w' @ [SlotEndQuery]\<rparr>)" "timedOut x = t"
    "emitted x = (case r of Inl err \<Rightarrow> [ErrorEvent err] | Inr page \<Rightarrow> [QueryEnd page, End])"
    by (simp_all split: sum.splits)
  with a b show thesis
    by (rule that)
qed

section \<open>Release of the admission slot\<close>

text \<open>A run that returns has taken the slot once and released it once, last of all.\<close>

lemma priv_execute_releases:
  assumes "priv_execute query maxResult nextToken config w = Some x"
  shows "count_list (trace (final x)) SlotStartQuery = Suc (count_list (trace w) SlotStartQuery) \<and>
         count_list (trace (final x)) SlotEndQuery = Suc (count_list (trace w) SlotEndQuery) \<and>
         last (trace (final x)) = SlotEndQuery \<and>
         (\<exists>admitted sleeps remaining.
            waitForSlot (others w) w = Some (admitted, sleeps, remaining) \<and>
            concurrentExecMax (final x) = concurrentExecMax admitted \<and>
            concurrentExecNum (final x) = max (concurrentExecNum admitted) 0) \<and>
         0 \<le> concurrentExecNum (final x) \<and>
         0 \<le> concurrentExecNum (endQuery (final x)) \<and>
         concurrentExecNum (endQuery (endQuery (g\<lparr>concurrentExecNum := 1\<rparr>))) = 0"
proof -
  from assms obtain admitted sleeps remaining r t w' where
    a: "waitForSlot (others w) w = Some (admitted, sleeps, remaining)" and
    b: "tryBlock query maxResult nextToken config
       (admitted\<lparr>now := now admitted + sleeps *
                    orDefault (execRightCheckInterval config) defaultExecRightCheckInterval,
                 others := remaining\<rparr>) = Some (r, t, w')" and
    f: "final x = endQuery (w'\<lparr>trace := trace w' @ [SlotEndQuery]\<rparr>)"
    by (rule priv_execute_unfold)
  from waitForSlot_admitted [OF a, where m = 0 and n = 0] have can: "canStartQuery admitted"
    by blast
  from tryBlock_slot [OF b] obtain acts where
    tr: "trace w' = trace admitted @ SlotStartQuery # acts"
    and acts: "SlotStartQuery \<notin> set acts" "SlotEndQuery \<notin> set acts"
    and mx: "concurrentExecMax w' = concurrentExecMax admitted"
    and num: "concurrentExecNum w' = min (concurrentExecNum admitted + 1) (concurrentExecMax admitted)"
    by auto
  from tr f have trace: "trace (final x) = trace w @ SlotStartQuery # acts @ [SlotEndQuery]"
    by (simp add: endQuery_def waitForSlot_frame(1) [OF a])
  from acts have zero: "count_list acts SlotStartQuery = 0" "count_list acts SlotEndQuery = 0"
    by simp_all
  have c1: "count_list (trace (final x)) SlotStartQuery = Suc (count_list (trace w) SlotStartQuery)"
    unfolding trace by (simp add: zero)
  have c2: "count_list (trace (final x)) SlotEndQuery = Suc (count_list (trace w) SlotEndQuery)"
    unfolding trace by (simp add: zero)
  have c3: "last (trace (final x)) = SlotEndQuery"
    unfolding trace by simp
  from can num have "concurrentExecNum w' = concurrentExecNum admitted + 1"
    by (simp add: canStartQuery_def)
  with f mx have c4: "concurrentExecMax (final x) = concurrentExecMax admitted"
    "concurrentExecNum (final x) = max (concurrentExecNum admitted) 0"
    by (simp_all add: endQuery_def)
  have c5: "0 \<le> concurrentExecNum (final x)" "0 \<le> concurrentExecNum (endQuery (final x))"
    "concurrentExecNum (endQuery (endQuery (g\<lparr>concurrentExecNum := 1\<rparr>))) = 0"
    by (simp_all add: c4 endQuery_def)
  from a c1 c2 c3 c4 c5 show ?thesis
    by blast
qed

text \<open>A run whose calls are all answered returns.\<close>

lemma decided_answered: "decided script \<Longrightarrow> answered script"
proof -
  have "ends_polling r \<Longrightarrow> settles r" for r
    by (cases r) simp_all
  then show "decided script \<Longrightarrow> answered script"
    by (auto simp: decided_def answered_def)
qed

text \<open>A check that asks for another round leaves a decided script decided.\<close>

lemma checkQuery_keeps_decided:
  assumes "decided script" and "checkQuery queryId config script = Some d"
    and "outcome d = Resolved False"
  shows "decided (rest d)"
proof -
  from assms(2) obtain g where
    g: "getQueryExecution queryId config script = Some g"
    and d: "rest d = rest g"
      "outcome d = (case outcome g of
                      Resolved queryExecution \<Rightarrow> checkQuery_state queryExecution
                    | Rejected err \<Rightarrow> Rejected err)"
    by (auto simp: checkQuery_def split: option.splits)
  from g obtain pre latency r where
    script: "script = pre @ (latency, r) # rest g"
    and out: "outcome g = (case r of Failure err \<Rightarrow> Rejected (Aws err) | Success data \<Rightarrow> Resolved data)"
    unfolding getQueryExecution_def by (blast dest: loopFunc_settled_by)
  from assms(3) d(2) out obtain queryExecution where
    r: "r = Success queryExecution" and "checkQuery_state queryExecution = Resolved False"
    by (cases r) auto
  then have "State (Status queryExecution) = ''QUEUED'' \<or>
      State (Status queryExecution) = ''RUNNING''"
    by (auto simp: checkQuery_state_def Let_def split: if_splits)
  with r have "\<not> ends_polling r"
    by auto
  with assms(1) script have "rest g \<noteq> []"
    by (auto simp: decided_def)
  with assms(1) script show ?thesis
    by (simp add: decided_def d(1))
qed

lemma pollLoop_decided:
  "decided (getQueryExecution_replies w) \<Longrightarrow> \<exists>res. pollLoop config timer queryId w = Some res"
proof (induction config timer queryId w rule: pollLoop.induct)
  case (1 config timer queryId w)
  show ?case
  proof (cases "isTimeout timer (now w)")
    case True
    then show ?thesis
      by (simp add: pollLoop.simps [of config timer queryId w])
  next
    case False
    from "1.prems" have "answered (getQueryExecution_replies w)"
      by (rule decided_answered)
    then obtain g where "getQueryExecution queryId config (getQueryExecution_replies w) = Some g"
      unfolding getQueryExecution_def by (blast dest: loopFunc_answered)
    then obtain d where d: "checkQuery queryId config (getQueryExecution_replies w) = Some d"
      by (simp add: checkQuery_def)
    show ?thesis
    proof (cases "outcome d")
      case (Rejected err)
      with False d show ?thesis
        by (simp add: pollLoop.simps [of config timer queryId w])
    next
      case (Resolved isSucceed)
      show ?thesis
      proof (cases isSucceed)
        case True
        with Resolved False d show ?thesis
          by (simp add: pollLoop.simps [of config timer queryId w])
      next
        case notyet: False
        with Resolved have "outcome d = Resolved False" by simp
        with "1.prems" d have "decided (rest d)"
          by (rule checkQuery_keeps_decided)
        then have "decided (getQueryExecution_replies
            (sleep (orDefault (pollingInterval config) defaultPollingInterval)
               (after_call (CallGetQueryExecution queryId) d
                  (w\<lparr>getQueryExecution_replies := rest d\<rparr>))))"
          by (simp add: sleep_def after_call_def)
        from "1.IH" [OF False d Resolved notyet this] notyet Resolved False d show ?thesis
          by (simp add: pollLoop.simps [of config timer queryId w])
      qed
    qed
  qed
qed


lemma polling_returns:
  fixes w :: "'r world"
  assumes "decided (getQueryExecution_replies w)" and "answered (stopQueryExecution w)"
    and "getQueryResults_replies w \<noteq> []"
  shows "polling config timer queryId maxResult nextToken w \<noteq> None"
proof -
  from pollLoop_decided [OF assms(1)] obtain p w3 where
    p: "pollLoop config timer queryId w = Some (p, w3)"
    by fastforce
  show ?thesis
  proof (cases p)
    case (Inl err)
    with p show ?thesis by (simp add: polling_def)
  next
    case (Inr u)
    from pollLoop_frame(4,5) [OF p] assms(2,3) have
      stop: "answered (stopQueryExecution w3)" and page: "getQueryResults_replies w3 \<noteq> []"
      by simp_all
    from stop obtain c where "stopQuery queryId config (stopQueryExecution w3) = Some c"
      unfolding stopQuery_def by (blast dest: loopFunc_answered)
    moreover from page obtain f where "getQueryResults (getQueryResults_replies w3) = Some f"
      by (cases "getQueryResults_replies w3" rule: getQueryResults.cases) auto
    ultimately have "afterPolling config timer queryId maxResult nextToken w3 \<noteq> None"
      by (auto simp: afterPolling_def)
    with p Inr show ?thesis by (simp add: polling_def)
  qed
qed

lemma tryBlock_returns:
  fixes w :: "'r world"
  assumes "answered (startQueryExecution w)" and "decided (getQueryExecution_replies w)"
    and "answered (stopQueryExecution w)" and "getQueryResults_replies w \<noteq> []"
  shows "tryBlock query maxResult nextToken config w \<noteq> None"
proof -
  let ?w1 = "client_startQuery (w\<lparr>trace := trace w @ [SlotStartQuery]\<rparr>)"
  from assms(1) obtain s where s: "request_startQuery query config (startQueryExecution w) = Some s"
    unfolding request_startQuery_def by (blast dest: loopFunc_answered)
  let ?w2 = "after_call (CallStartQueryExecution (startQuery_params query config)) s
               (?w1\<lparr>startQueryExecution := rest s\<rparr>)"
  have start: "startQueryExecution ?w1 = startQueryExecution w"
    by (simp add: client_startQuery_def)
  show ?thesis
  proof (cases "outcome s")
    case (Rejected err)
    with s show ?thesis by (simp add: tryBlock_def Let_def start)
  next
    case (Resolved queryId)
    have "decided (getQueryExecution_replies ?w2)" "answered (stopQueryExecution ?w2)"
      "getQueryResults_replies ?w2 \<noteq> []"
      using assms(2-4) by (simp_all add: after_call_def client_startQuery_def)
    then have "polling config (setTimeout config (now ?w2)) queryId maxResult nextToken ?w2 \<noteq> None"
      by (rule polling_returns)
    with s Resolved show ?thesis by (simp add: tryBlock_def Let_def start)
  qed
qed

text \<open>A run that is admitted and whose calls are all answered ends.\<close>

lemma priv_execute_returns:
  fixes w :: "'r world"
  assumes "waitForSlot (others w) w \<noteq> None"
    and "answered (startQueryExecution w)" and "decided (getQueryExecution_replies w)"
    and "answered (stopQueryExecution w)" and "getQueryResults_replies w \<noteq> []"
  shows "\<exists>x :: ('t, 'r) execution. priv_execute query maxResult nextToken config w = Some x"
proof -
  from assms(1) obtain admitted sleeps remaining where
    a: "waitForSlot (others w) w = Some (admitted, sleeps, remaining)"
    by fastforce
  let ?w0 = "admitted\<lparr>now := now admitted + sleeps *
                    orDefault (execRightCheckInterval config) defaultExecRightCheckInterval,
                 others := remaining\<rparr>"
  from waitForSlot_frame(3-6) [OF a] assms(2-5) have
    "answered (startQueryExecution ?w0)" "decided (getQueryExecution_replies ?w0)"
    "answered (stopQueryExecution ?w0)" "getQueryResults_replies ?w0 \<noteq> []"
    by simp_all
  then obtain r t w' where
    "tryBlock query maxResult nextToken config ?w0 = Some (r, t, w')"
    using tryBlock_returns [of ?w0 query maxResult nextToken config] by fastforce
  with a show ?thesis
    by (cases r) (simp_all add: priv_execute_def)
qed

text \<open>
  Claim C8. Every run of \<open>_execute\<close> that is admitted and whose calls the service
  answers comes to an end, on whatever exit path (a result, a failure of the submission,
  of a status check, of the fetch, or a timeout with the cancel accepted or refused), and
  every run that ends has taken the slot once and released it once, as its last action;
  the count it leaves is the count found at admission (floored at zero), so it is never
  negative, also not after a second release.
\<close>

theorem slot_released_once:
  fixes w :: "'r world" and x :: "('t, 'r) execution"
  shows
    "(waitForSlot (others w) w \<noteq> None \<and> answered (startQueryExecution w) \<and>
      decided (getQueryExecution_replies w) \<and> answered (stopQueryExecution w) \<and>
      getQueryResults_replies w \<noteq> [] \<longrightarrow>
        (\<exists>y :: ('t, 'r) execution.
           priv_execute query maxResult nextToken config w = Some y \<and>
           count_list (trace (final y)) SlotEndQuery = Suc (count_list (trace w) SlotEndQuery) \<and>
           last (trace (final y)) = SlotEndQuery)) \<and>
     (priv_execute query maxResult nextToken config w = Some x \<longrightarrow>
        count_list (trace (final x)) SlotStartQuery = Suc (count_list (trace w) SlotStartQuery) \<and>
        count_list (trace (final x)) SlotEndQuery = Suc (count_list (trace w) SlotEndQuery) \<and>
        last (trace (final x)) = SlotEndQuery \<and>
        (\<exists>admitted sleeps remaining.
           waitForSlot (others w) w = Some (admitted, sleeps, remaining) \<and>
           concurrentExecMax (final x) = concurrentExecMax admitted \<and>
           concurrentExecNum (final x) = max (concurrentExecNum admitted) 0) \<and>
        0 \<le> concurrentExecNum (final x) \<and>
        0 \<le> concurrentExecNum (endQuery (final x)) \<and>
        concurrentExecNum (endQuery (endQuery (g\<lparr>concurrentExecNum := 1\<rparr>))) = 0)"
proof (intro conjI impI)
  assume "waitForSlot (others w) w \<noteq> None \<and> answered (startQueryExecution w) \<and>
      decided (getQueryExecution_replies w) \<and> answered (stopQueryExecution w) \<and>
      getQueryResults_replies w \<noteq> []"
  then obtain y :: "('t, 'r) execution" where
    y: "priv_execute query maxResult nextToken config w = Some y"
    using priv_execute_returns [of w query maxResult nextToken config] by blast
  from priv_execute_releases [OF y, where g = w] have
    "count_list (trace (final y)) SlotEndQuery = Suc (count_list (trace w) SlotEndQuery)"
    "last (trace (final y)) = SlotEndQuery"
    by blast+
  with y show "\<exists>y :: ('t, 'r) execution.
           priv_execute query maxResult nextToken config w = Some y \<and>
           count_list (trace (final y)) SlotEndQuery = Suc (count_list (trace w) SlotEndQuery) \<and>
           last (trace (final y)) = SlotEndQuery"
    by blast
next
  assume x: "priv_execute query maxResult nextToken config w = Some x"
  note r = priv_execute_releases [OF x, where g = g]
  from r show "count_list (trace (final x)) SlotStartQuery =
      Suc (count_list (trace w) SlotStartQuery)" by blast
  from r show "count_list (trace (final x)) SlotEndQuery =
      Suc (count_list (trace w) SlotEndQuery)" by blast
  from r show "last (trace (final x)) = SlotEndQuery" by blast
  from r show "\<exists>admitted sleeps remaining.
           waitForSlot (others w) w = Some (admitted, sleeps, remaining) \<and>
           concurrentExecMax (final x) = concurrentExecMax admitted \<and>
           concurrentExecNum (final x) = max (concurrentExecNum admitted) 0" by blast
  from r show "0 \<le> concurrentExecNum (final x)" by blast
  from r show "0 \<le> concurrentExecNum (endQuery (final x))" by blast
  from r show "concurrentExecNum (endQuery (endQuery (g\<lparr>concurrentExecNum := 1\<rparr>))) = 0" by blast
qed

text \<open>
  The witness, one run for each exit path of the sample service: the query succeeds; the
  submission is refused; the status check reports \<open>FAILED\<close>; the fetch is refused; the
  deadline elapses and the cancel is accepted; the deadline elapses and the cancel is
  refused. Each run ends, emits what its path says, and leaves one release, last in the
  trace, and a count of zero.
\<close>

theorem slot_released_once_witness:
  "(\<exists>x. (priv_execute ''SELECT 1'' 10 None sample_config sample_world
           :: (string, string list) execution option) = Some x \<and>
        emitted x = [QueryEnd [''1'', ''2'', ''3''], End] \<and>
        count_list (trace (final x)) SlotStartQuery = 1 \<and>
        count_list (trace (final x)) SlotEndQuery = 1 \<and>
        last (trace (final x)) = SlotEndQuery \<and> concurrentExecNum (final x) = 0) \<and>
   (\<exists>x. (priv_execute ''SELECT 1'' 10 None sample_config
            (sample_world\<lparr>startQueryExecution := [(10, Failure accessDenied)]\<rparr>)
           :: (string, string list) execution option) = Some x \<and>
        emitted x = [ErrorEvent (Aws accessDenied)] \<and>
        count_list (trace (final x)) SlotStartQuery = 1 \<and>
        count_list (trace (final x)) SlotEndQuery = 1 \<and>
        last (trace (final x)) = SlotEndQuery \<and> concurrentExecNum (final x) = 0) \<and>
   (\<exists>x. (priv_execute ''SELECT 1'' 10 None sample_config
            (sample_world\<lparr>getQueryExecution_replies :=
               [(5, Success (status_reply ''FAILED'' None))]\<rparr>)
           :: (string, string list) execution option) = Some x \<and>
        emitted x = [ErrorEvent (Error ''FAILED: Execution Error'')] \<and>
        count_list (trace (final x)) SlotStartQuery = 1 \<and>
        count_list (trace (final x)) SlotEndQuery = 1 \<and>
        last (trace (final x)) = SlotEndQuery \<and> concurrentExecNum (final x) = 0) \<and>
   (\<exists>x. (priv_execute ''SELECT 1'' 10 None sample_config
            (sample_world\<lparr>getQueryResults_replies := [(7, Failure throttling)]\<rparr>)
           :: (string, string list) execution option) = Some x \<and>
        emitted x = [ErrorEvent (Aws throttling)] \<and>
        count_list (trace (final x)) SlotStartQuery = 1 \<and>
        count_list (trace (final x)) SlotEndQuery = 1 \<and>
        last (trace (final x)) = SlotEndQuery \<and> concurrentExecNum (final x) = 0) \<and>
   (\<exists>x. (priv_execute ''SELECT 1'' 10 None (sample_config\<lparr>queryTimeout := Some 1500\<rparr>)
            (sample_world\<lparr>stopQueryExecution := [(3, Success ())]\<rparr>)
           :: (string, string list) execution option) = Some x \<and>
        emitted x = [ErrorEvent (Error ''query timeout'')] \<and>
        count_list (trace (final x)) SlotStartQuery = 1 \<and>
        count_list (trace (final x)) SlotEndQuery = 1 \<and>
        last (trace (final x)) = SlotEndQuery \<and> concurrentExecNum (final x) = 0) \<and>
   (\<exists>x. (priv_execute ''SELECT 1'' 10 None (sample_config\<lparr>queryTimeout := Some 1500\<rparr>)
            sample_world
           :: (string, string list) execution option) = Some x \<and>
        emitted x = [ErrorEvent (Aws accessDenied)] \<and>
        count_list (trace (final x)) SlotStartQuery = 1 \<and>
        count_list (trace (final x)) SlotEndQuery = 1 \<and>
        last (trace (final x)) = SlotEndQuery \<and> concurrentExecNum (final x) = 0)"
proof -
  have path: "\<exists>x. (priv_execute ''SELECT 1'' 10 None c v
           :: (string, string list) execution option) = Some x \<and>
        emitted x = e \<and>
        count_list (trace (final x)) SlotStartQuery = 1 \<and>
        count_list (trace (final x)) SlotEndQuery = 1 \<and>
        last (trace (final x)) = SlotEndQuery \<and> concurrentExecNum (final x) = 0"
    if admitted: "waitForSlot (others v) v = Some (v, 0, [])"
      and answers: "answered (startQueryExecution v)" "decided (getQueryExecution_replies v)"
        "answered (stopQueryExecution v)" "getQueryResults_replies v \<noteq> []"
      and start: "trace v = []" "concurrentExecNum v = 0"
      and events: "map_option emitted
        (priv_execute ''SELECT 1'' 10 None c v :: (string, string list) execution option) = Some e"
    for c e and v :: "string list world"
  proof -
    from admitted answers obtain x :: "(string, string list) execution" where
      x: "priv_execute ''SELECT 1'' 10 None c v = Some x"
      using slot_released_once [of v "''SELECT 1''" 10 None c] by auto
    from slot_released_once [of v "''SELECT 1''" 10 None c x v] x admitted start
    have "count_list (trace (final x)) SlotStartQuery = 1"
      "count_list (trace (final x)) SlotEndQuery = 1"
      "last (trace (final x)) = SlotEndQuery" "concurrentExecNum (final x) = 0"
      by simp_all
    moreover from events x have "emitted x = e"
      by simp
    ultimately show ?thesis
      using x by blast
  qed
  note samples = sample_world_def sample_config_def status_reply_def answered_def decided_def
    canStartQuery_def isRetryException_def accessDenied_def throttling_def
  show ?thesis
    by (intro conjI; rule path) (simp_all add: samples, simp_all add: run_defs)
qed

section \<open>Timeout\<close>

lemma isTimeout_setTimeout:
  "orDefault (queryTimeout config) defaultQueryTimeout \<noteq> 0 \<Longrightarrow>
   isTimeout (setTimeout config armedAt) t =
     (armedAt + timer_delay (orDefault (queryTimeout config) defaultQueryTimeout) \<le> t)"
  by (simp add: isTimeout_def setTimeout_def)

text \<open>One status check of the loop, with the retries of its call.\<close>

lemma pollLoop_step:
  fixes g :: "(QueryExecution, QueryExecution, number) finished"
  assumes "\<not> isTimeout timer (now w)"
    and "getQueryExecution queryId config (getQueryExecution_replies w) = Some g"
  shows "pollLoop config timer queryId w =
     (case (case outcome g of
              Resolved queryExecution \<Rightarrow> checkQuery_state queryExecution
            | Rejected err \<Rightarrow> Rejected err) of
        Rejected err \<Rightarrow>
          Some (Inl err,
                w\<lparr>now := now w + elapsed g, getQueryExecution_replies := rest g,
                  trace := trace w @
                    replicate (Suc (length (waits g))) (CallGetQueryExecution queryId)\<rparr>)
      | Resolved isSucceed \<Rightarrow>
          if isSucceed
          then Some (Inr (),
                     w\<lparr>now := now w + elapsed g, getQueryExecution_replies := rest g,
                       trace := trace w @
                         replicate (Suc (length (waits g))) (CallGetQueryExecution queryId)\<rparr>)
          else pollLoop config timer queryId
                 (sleep (orDefault (pollingInterval config) defaultPollingInterval)
                    (w\<lparr>now := now w + elapsed g, getQueryExecution_replies := rest g,
                       trace := trace w @
                         replicate (Suc (length (waits g)))
                           (CallGetQueryExecution queryId)\<rparr>)))"
proof -
  let ?d = "\<lparr>outcome = (case outcome g of
                           Resolved queryExecution \<Rightarrow> checkQuery_state queryExecution
                         | Rejected err \<Rightarrow> Rejected err),
              waits = waits g, elapsed = elapsed g, rest = rest g\<rparr>"
  have after: "after_call a d (w\<lparr>getQueryExecution_replies := s\<rparr>) =
      w\<lparr>now := now w + elapsed d, getQueryExecution_replies := s,
        trace := trace w @ replicate (Suc (length (waits d))) a\<rparr>"
    for a s and d :: "(QueryExecution, bool, number) finished"
    by (simp add: after_call_def)
  have check: "checkQuery queryId config (getQueryExecution_replies w) = Some ?d"
    by (simp add: assms(2) checkQuery_def)
  show ?thesis
  proof (cases "outcome ?d")
    case (Rejected err)
    then show ?thesis
      by (subst pollLoop.simps) (simp add: assms(1) check after)
  next
    case (Resolved isSucceed)
    then show ?thesis
      by (cases isSucceed; subst pollLoop.simps) (simp_all add: assms(1) check after)
  qed
qed

lemma afterPolling_cancel:
  assumes "isTimeout timer (now w)"
  shows "afterPolling config timer queryId maxResult nextToken w =
     (case stopQuery queryId config (stopQueryExecution w) of
        None \<Rightarrow> None
      | Some c \<Rightarrow>
          Some (Inl (case outcome c of
                       Resolved u \<Rightarrow> Error ''query timeout''
                     | Rejected err \<Rightarrow> err),
                True,
                w\<lparr>now := now w + elapsed c, stopQueryExecution := rest c,
                  trace := trace w @
                    replicate (Suc (length (waits c))) (CallStopQueryExecution queryId)\<rparr>))"
proof (cases "stopQuery queryId config (stopQueryExecution w)")
  case None
  with assms show ?thesis by (simp add: afterPolling_def)
next
  case (Some c)
  have "after_call (CallStopQueryExecution queryId) c (w\<lparr>stopQueryExecution := rest c\<rparr>) =
      w\<lparr>now := now w + elapsed c, stopQueryExecution := rest c,
        trace := trace w @ replicate (Suc (length (waits c))) (CallStopQueryExecution queryId)\<rparr>"
    by (simp add: after_call_def)
  with assms Some show ?thesis
    by (cases "outcome c") (simp_all add: afterPolling_def)
qed

lemma afterPolling_fetch:
  assumes "\<not> isTimeout timer (now w)"
  shows "afterPolling config timer queryId maxResult nextToken w =
     (case getQueryResults (getQueryResults_replies w) of
        None \<Rightarrow> None
      | Some f \<Rightarrow>
          Some ((case outcome f of Rejected err \<Rightarrow> Inl err | Resolved page \<Rightarrow> Inr page),
                False,
                w\<lparr>now := now w + elapsed f, getQueryResults_replies := rest f,
                  trace := trace w @
                    replicate (Suc (length (waits f)))
                      (CallGetQueryResults queryId maxResult nextToken)\<rparr>))"
proof (cases "getQueryResults (getQueryResults_replies w)")
  case None
  with assms show ?thesis by (simp add: afterPolling_def)
next
  case (Some f)
  have "after_call (CallGetQueryResults queryId maxResult nextToken) f
          (w\<lparr>getQueryResults_replies := rest f\<rparr>) =
      w\<lparr>now := now w + elapsed f, getQueryResults_replies := rest f,
        trace := trace w @ replicate (Suc (length (waits f)))
                      (CallGetQueryResults queryId maxResult nextToken)\<rparr>"
    by (simp add: after_call_def)
  with assms Some show ?thesis
    by (cases "outcome f") (simp_all add: afterPolling_def)
qed

lemma afterPolling_timeout:
  assumes "afterPolling config timer queryId maxResult nextToken w = Some (r, True, w')"
  obtains c where "isTimeout timer (now w)"
    "stopQuery queryId config (stopQueryExecution w) = Some c"
    "r = Inl (case outcome c of Resolved u \<Rightarrow> Error ''query timeout'' | Rejected err \<Rightarrow> err)"
    "w' = after_call (CallStopQueryExecution queryId) c (w\<lparr>stopQueryExecution := rest c\<rparr>)"
proof -
  from assms have t: "isTimeout timer (now w)"
    by (auto simp: afterPolling_def split: if_splits option.splits)
  with assms obtain c where c: "stopQuery queryId config (stopQueryExecution w) = Some c"
    by (auto simp: afterPolling_def split: option.splits)
  with assms t have
    "r = Inl (case outcome c of Resolved u \<Rightarrow> Error ''query timeout'' | Rejected err \<Rightarrow> err)"
    "w' = after_call (CallStopQueryExecution queryId) c (w\<lparr>stopQueryExecution := rest c\<rparr>)"
    by (auto simp: afterPolling_def split: settled.splits)
  with t c show thesis
    by (rule that)
qed

lemma isTimeout_armed:
  "isTimeout (setTimeout config armedAt) t \<Longrightarrow>
   orDefault (queryTimeout config) defaultQueryTimeout \<noteq> 0"
  by (auto simp: isTimeout_def setTimeout_def split: if_splits)

text \<open>
  At the level of a whole run: when the check after the loop found the deadline
  elapsed, a timeout was configured, the trace ends with the calls of the cancel and the
  release of the slot, and the event emitted carries the timeout error or the cancel's
  error.
\<close>

lemma timedOut_run:
  assumes "priv_execute query maxResult nextToken config w = Some x" and "timedOut x"
  shows "orDefault (queryTimeout config) defaultQueryTimeout \<noteq> 0 \<and>
         (\<exists>queryId c pre.
            stopQuery queryId config (stopQueryExecution w) = Some c \<and>
            trace (final x) =
              pre @ replicate (Suc (length (waits c))) (CallStopQueryExecution queryId) @
              [SlotEndQuery] \<and>
            emitted x =
              [ErrorEvent (case outcome c of
                             Resolved u \<Rightarrow> Error ''query timeout''
                           | Rejected err \<Rightarrow> err)] \<and>
            getQueryResults_replies (final x) = getQueryResults_replies w)"
proof -
  from assms(1) obtain admitted sleeps remaining r t w' where
    a: "waitForSlot (others w) w = Some (admitted, sleeps, remaining)" and
    b: "tryBlock query maxResult nextToken config
       (admitted\<lparr>now := now admitted + sleeps *
                    orDefault (execRightCheckInterval config) defaultExecRightCheckInterval,
                 others := remaining\<rparr>) = Some (r, t, w')" and
    f: "final x = endQuery (w'\<lparr>trace := trace w' @ [SlotEndQuery]\<rparr>)" and
    t: "timedOut x = t" and
    e: "emitted x = (case r of Inl err \<Rightarrow> [ErrorEvent err] | Inr page \<Rightarrow> [QueryEnd page, End])"
    by (rule priv_execute_unfold)
  let ?w0 = "admitted\<lparr>now := now admitted + sleeps *
                    orDefault (execRightCheckInterval config) defaultExecRightCheckInterval,
                 others := remaining\<rparr>"
  from assms(2) t have t: "t" by simp
  from b show ?thesis
  proof (cases rule: tryBlock_paths)
    case (submit_failed s err)
    with t show ?thesis by simp
  next
    case (poll_failed s queryId err)
    with t show ?thesis by simp
  next
    case (polled s queryId w3)
    from polled(4) t
    have "afterPolling config (setTimeout config (now ?w0 + elapsed s)) queryId maxResult nextToken w3 =
        Some (r, True, w')"
      by simp
    then obtain c where
      fired: "isTimeout (setTimeout config (now ?w0 + elapsed s)) (now w3)" and
      c: "stopQuery queryId config (stopQueryExecution w3) = Some c" and
      r: "r = Inl (case outcome c of Resolved u \<Rightarrow> Error ''query timeout'' | Rejected err \<Rightarrow> err)" and
      w': "w' = after_call (CallStopQueryExecution queryId) c (w3\<lparr>stopQueryExecution := rest c\<rparr>)"
      by (rule afterPolling_timeout)
    have "stopQueryExecution w3 = stopQueryExecution w"
      "getQueryResults_replies w3 = getQueryResults_replies w"
      using pollLoop_frame(4,5) [OF polled(3)] waitForSlot_frame(5,6) [OF a]
      by (simp_all add: after_call_def client_startQuery_def)
    with c w' f have "stopQuery queryId config (stopQueryExecution w) = Some c"
      "getQueryResults_replies (final x) = getQueryResults_replies w"
      by (simp_all add: after_call_def endQuery_def)
    moreover from w' f have "trace (final x) =
        trace w3 @ replicate (Suc (length (waits c))) (CallStopQueryExecution queryId) @ [SlotEndQuery]"
      by (simp add: after_call_def endQuery_def)
    moreover from e r have "emitted x =
        [ErrorEvent (case outcome c of Resolved u \<Rightarrow> Error ''query timeout'' | Rejected err \<Rightarrow> err)]"
      by simp
    moreover from fired have "orDefault (queryTimeout config) defaultQueryTimeout \<noteq> 0"
      by (rule isTimeout_armed)
    ultimately show ?thesis by blast
  qed
qed

text \<open>What the polling does from a loop head, against the deadline of an armed timer.\<close>

lemma polling_at_deadline:
  fixes w :: "'r world" and g :: "(QueryExecution, QueryExecution, number) finished"
  assumes "orDefault (queryTimeout config) defaultQueryTimeout \<noteq> 0"
  shows
    "let deadline = armedAt + timer_delay (orDefault (queryTimeout config) defaultQueryTimeout);
         run = polling config (setTimeout config armedAt) queryId maxResult nextToken;
         cancel = (\<lambda>v. case stopQuery queryId config (stopQueryExecution v) of
                     None \<Rightarrow> None
                   | Some c \<Rightarrow>
                       Some (Inl (case outcome c of
                                    Resolved u \<Rightarrow> Error ''query timeout''
                                  | Rejected err \<Rightarrow> err),
                             True,
                             v\<lparr>now := now v + elapsed c, stopQueryExecution := rest c,
                               trace := trace v @
                                 replicate (Suc (length (waits c)))
                                   (CallStopQueryExecution queryId)\<rparr>));
         fetch = (\<lambda>v. case getQueryResults (getQueryResults_replies v) of
                     None \<Rightarrow> None
                   | Some f \<Rightarrow>
                       Some ((case outcome f of
                                Rejected err \<Rightarrow> Inl err
                              | Resolved page \<Rightarrow> Inr page),
                             False,
                             v\<lparr>now := now v + elapsed f, getQueryResults_replies := rest f,
                               trace := trace v @
                                 replicate (Suc (length (waits f)))
                                   (CallGetQueryResults queryId maxResult nextToken)\<rparr>));
         checked = w\<lparr>now := now w + elapsed g, getQueryExecution_replies := rest g,
                      trace := trace w @
                        replicate (Suc (length (waits g))) (CallGetQueryExecution queryId)\<rparr>
     in (deadline \<le> now w \<longrightarrow> run w = cancel w) \<and>
        (now w < deadline \<and>
         getQueryExecution queryId config (getQueryExecution_replies w) = Some g \<longrightarrow>
           (\<forall>queryExecution.
              outcome g = Resolved queryExecution \<and>
              State (Status queryExecution) = ''SUCCEEDED'' \<and>
              deadline \<le> now w + elapsed g \<longrightarrow>
                run w = cancel checked) \<and>
           (\<forall>queryExecution.
              outcome g = Resolved queryExecution \<and>
              State (Status queryExecution) = ''SUCCEEDED'' \<and>
              now w + elapsed g < deadline \<longrightarrow>
                run w = fetch checked) \<and>
           (\<forall>queryExecution err.
              outcome g = Resolved queryExecution \<and>
              checkQuery_state queryExecution = Rejected err \<longrightarrow>
                run w = Some (Inl err, False, checked)) \<and>
           (\<forall>err. outcome g = Rejected err \<longrightarrow> run w = Some (Inl err, False, checked)) \<and>
           (\<forall>queryExecution.
              outcome g = Resolved queryExecution \<and>
              (State (Status queryExecution) = ''QUEUED'' \<or>
               State (Status queryExecution) = ''RUNNING'') \<longrightarrow>
                run w = run (sleep (orDefault (pollingInterval config) defaultPollingInterval)
                               checked)))"
proof -
  let ?deadline = "armedAt + timer_delay (orDefault (queryTimeout config) defaultQueryTimeout)"
  let ?timer = "setTimeout config armedAt"
  let ?checked = "w\<lparr>now := now w + elapsed g, getQueryExecution_replies := rest g,
                      trace := trace w @
                        replicate (Suc (length (waits g))) (CallGetQueryExecution queryId)\<rparr>"
  note fired = isTimeout_setTimeout [OF assms, of armedAt]
  have at_head: "polling config ?timer queryId maxResult nextToken w =
      afterPolling config ?timer queryId maxResult nextToken w"
    if "?deadline \<le> now w"
    using that by (simp add: polling_def pollLoop.simps [of config ?timer queryId w] fired)
  have elapsed_at_head: ?thesis if "?deadline \<le> now w"
    using that by (simp add: Let_def at_head afterPolling_cancel fired)
  have in_time: ?thesis if before: "now w < ?deadline"
  proof -
    from before have open_: "\<not> isTimeout ?timer (now w)"
      by (simp add: fired)
    have succeeded: "polling config ?timer queryId maxResult nextToken w =
        afterPolling config ?timer queryId maxResult nextToken ?checked"
      if "getQueryExecution queryId config (getQueryExecution_replies w) = Some g"
        and "outcome g = Resolved queryExecution"
        and "State (Status queryExecution) = ''SUCCEEDED''" for queryExecution
    proof -
      from that(3) have "checkQuery_state queryExecution = Resolved True"
        by (simp add: checkQuery_state_def)
      then show ?thesis
        by (simp add: polling_def pollLoop_step [OF open_ that(1)] that(2))
    qed
    have rejected: "polling config ?timer queryId maxResult nextToken w =
        Some (Inl err, False, ?checked)"
      if "getQueryExecution queryId config (getQueryExecution_replies w) = Some g"
        and "outcome g = Resolved queryExecution"
        and "checkQuery_state queryExecution = Rejected err" for queryExecution err
      using that(3) by (simp add: polling_def pollLoop_step [OF open_ that(1)] that(2))
    have refused: "polling config ?timer queryId maxResult nextToken w =
        Some (Inl err, False, ?checked)"
      if "getQueryExecution queryId config (getQueryExecution_replies w) = Some g"
        and "outcome g = Rejected err" for err
      by (simp add: polling_def pollLoop_step [OF open_ that(1)] that(2))
    have waiting: "polling config ?timer queryId maxResult nextToken w =
        polling config ?timer queryId maxResult nextToken
          (sleep (orDefault (pollingInterval config) defaultPollingInterval) ?checked)"
      if "getQueryExecution queryId config (getQueryExecution_replies w) = Some g"
        and "outcome g = Resolved queryExecution"
        and "State (Status queryExecution) = ''QUEUED'' \<or>
             State (Status queryExecution) = ''RUNNING''" for queryExecution
    proof -
      from that(3) have "checkQuery_state queryExecution = Resolved False"
        by (auto simp: checkQuery_state_def)
      then show ?thesis
        by (simp add: polling_def pollLoop_step [OF open_ that(1)] that(2))
    qed
    have late: "afterPolling config ?timer queryId maxResult nextToken ?checked =
        (case stopQuery queryId config (stopQueryExecution ?checked) of
           None \<Rightarrow> None
         | Some c \<Rightarrow>
             Some (Inl (case outcome c of
                          Resolved u \<Rightarrow> Error ''query timeout''
                        | Rejected err \<Rightarrow> err),
                   True,
                   ?checked\<lparr>now := now ?checked + elapsed c, stopQueryExecution := rest c,
                     trace := trace ?checked @
                       replicate (Suc (length (waits c))) (CallStopQueryExecution queryId)\<rparr>))"
      if "?deadline \<le> now w + elapsed g"
      by (rule afterPolling_cancel) (use that in \<open>simp add: fired\<close>)
    have early: "afterPolling config ?timer queryId maxResult nextToken ?checked =
        (case getQueryResults (getQueryResults_replies ?checked) of
           None \<Rightarrow> None
         | Some f \<Rightarrow>
             Some ((case outcome f of Rejected err \<Rightarrow> Inl err | Resolved page \<Rightarrow> Inr page),
                   False,
                   ?checked\<lparr>now := now ?checked + elapsed f, getQueryResults_replies := rest f,
                     trace := trace ?checked @
                       replicate (Suc (length (waits f)))
                         (CallGetQueryResults queryId maxResult nextToken)\<rparr>))"
      if "now w + elapsed g < ?deadline"
      by (rule afterPolling_fetch) (use that in \<open>simp add: fired\<close>)
    have a: "polling config ?timer queryId maxResult nextToken w =
        (case stopQuery queryId config (stopQueryExecution ?checked) of
           None \<Rightarrow> None
         | Some c \<Rightarrow>
             Some (Inl (case outcome c of
                          Resolved u \<Rightarrow> Error ''query timeout''
                        | Rejected err \<Rightarrow> err),
                   True,
                   ?checked\<lparr>now := now ?checked + elapsed c, stopQueryExecution := rest c,
                     trace := trace ?checked @
                       replicate (Suc (length (waits c))) (CallStopQueryExecution queryId)\<rparr>))"
      if "getQueryExecution queryId config (getQueryExecution_replies w) = Some g"
        and "outcome g = Resolved queryExecution"
        and "State (Status queryExecution) = ''SUCCEEDED''"
        and "?deadline \<le> now w + elapsed g" for queryExecution
      using succeeded [OF that(1,2,3)] late [OF that(4)] by (rule trans)
    have b: "polling config ?timer queryId maxResult nextToken w =
        (case getQueryResults (getQueryResults_replies ?checked) of
           None \<Rightarrow> None
         | Some f \<Rightarrow>
             Some ((case outcome f of Rejected err \<Rightarrow> Inl err | Resolved page \<Rightarrow> Inr page),
                   False,
                   ?checked\<lparr>now := now ?checked + elapsed f, getQueryResults_replies := rest f,
                     trace := trace ?checked @
                       replicate (Suc (length (waits f)))
                         (CallGetQueryResults queryId maxResult nextToken)\<rparr>))"
      if "getQueryExecution queryId config (getQueryExecution_replies w) = Some g"
        and "outcome g = Resolved queryExecution"
        and "State (Status queryExecution) = ''SUCCEEDED''"
        and "now w + elapsed g < ?deadline" for queryExecution
      using succeeded [OF that(1,2,3)] early [OF that(4)] by (rule trans)
    from before show ?thesis
      unfolding Let_def
      by (intro conjI impI allI; (elim conjE)?)
         (simp, (rule a b rejected refused waiting; assumption)+)
  qed
  show ?thesis
    using elapsed_at_head in_time by (cases "?deadline \<le> now w") simp_all
qed

text \<open>
  Claim C2, as amended. The deadline is the moment the timer armed after submission
  fires; the loop tests it at each loop head and once more after a check that reported
  \<open>SUCCEEDED\<close>. A check is one \<open>getQueryExecution\<close> with its retries. When the deadline
  has elapsed at a loop head, or elapses during a check that reports \<open>SUCCEEDED\<close>, a
  cancel is issued through the retry loop, no result page is fetched, and the run ends
  with the timeout error when the cancel succeeds and with the cancel's own error when
  the cancel fails. A check that ends in a failure (\<open>FAILED\<close>, \<open>CANCELLED\<close>, an unknown
  status or an error of the service) ends the run with that failure and without a
  cancel, also when the deadline elapsed while it was in flight. Before the deadline
  \<open>QUEUED\<close> and \<open>RUNNING\<close> continue the loop after the polling interval and \<open>SUCCEEDED\<close>
  leads to the fetch. A whole run in which the test after the loop found the deadline
  elapsed emits the timeout error or the cancel's error, and its trace ends with the
  calls of the cancel and the release of the slot.
\<close>

theorem deadline_elapsed_while_polling:
  fixes w v :: "'r world" and x :: "('t, 'r) execution"
    and g :: "(QueryExecution, QueryExecution, number) finished"
  shows
    "(orDefault (queryTimeout config) defaultQueryTimeout \<noteq> 0 \<longrightarrow>
      (let deadline = armedAt + timer_delay (orDefault (queryTimeout config) defaultQueryTimeout);
         run = polling config (setTimeout config armedAt) queryId maxResult nextToken;
         cancel = (\<lambda>v. case stopQuery queryId config (stopQueryExecution v) of
                     None \<Rightarrow> None
                   | Some c \<Rightarrow>
                       Some (Inl (case outcome c of
                                    Resolved u \<Rightarrow> Error ''query timeout''
                                  | Rejected err \<Rightarrow> err),
                             True,
                             v\<lparr>now := now v + elapsed c, stopQueryExecution := rest c,
                               trace := trace v @
                                 replicate (Suc (length (waits c)))
                                   (CallStopQueryExecution queryId)\<rparr>));
         fetch = (\<lambda>v. case getQueryResults (getQueryResults_replies v) of
                     None \<Rightarrow> None
                   | Some f \<Rightarrow>
                       Some ((case outcome f of
                                Rejected err \<Rightarrow> Inl err
                              | Resolved page \<Rightarrow> Inr page),
                             False,
                             v\<lparr>now := now v + elapsed f, getQueryResults_replies := rest f,
                               trace := trace v @
                                 replicate (Suc (length (waits f)))
                                   (CallGetQueryResults queryId maxResult nextToken)\<rparr>));
         checked = w\<lparr>now := now w + elapsed g, getQueryExecution_replies := rest g,
                      trace := trace w @
                        replicate (Suc (length (waits g))) (CallGetQueryExecution queryId)\<rparr>
     in (deadline \<le> now w \<longrightarrow> run w = cancel w) \<and>
        (now w < deadline \<and>
         getQueryExecution queryId config (getQueryExecution_replies w) = Some g \<longrightarrow>
           (\<forall>queryExecution.
              outcome g = Resolved queryExecution \<and>
              State (Status queryExecution) = ''SUCCEEDED'' \<and>
              deadline \<le> now w + elapsed g \<longrightarrow>
                run w = cancel checked) \<and>
           (\<forall>queryExecution.
              outcome g = Resolved queryExecution \<and>
              State (Status queryExecution) = ''SUCCEEDED'' \<and>
              now w + elapsed g < deadline \<longrightarrow>
                run w = fetch checked) \<and>
           (\<forall>queryExecution err.
              outcome g = Resolved queryExecution \<and>
              checkQuery_state queryExecution = Rejected err \<longrightarrow>
                run w = Some (Inl err, False, checked)) \<and>
           (\<forall>err. outcome g = Rejected err \<longrightarrow> run w = Some (Inl err, False, checked)) \<and>
           (\<forall>queryExecution.
              outcome g = Resolved queryExecution \<and>
              (State (Status queryExecution) = ''QUEUED'' \<or>
               State (Status queryExecution) = ''RUNNING'') \<longrightarrow>
                run w = run (sleep (orDefault (pollingInterval config) defaultPollingInterval)
                               checked))))) \<and>
     (priv_execute query maxResult nextToken config v = Some x \<and> timedOut x \<longrightarrow>
        orDefault (queryTimeout config) defaultQueryTimeout \<noteq> 0 \<and>
        (\<exists>queryId c pre.
           stopQuery queryId config (stopQueryExecution v) = Some c \<and>
           trace (final x) =
             pre @ replicate (Suc (length (waits c))) (CallStopQueryExecution queryId) @
             [SlotEndQuery] \<and>
           emitted x =
             [ErrorEvent (case outcome c of
                            Resolved u \<Rightarrow> Error ''query timeout''
                          | Rejected err \<Rightarrow> err)] \<and>
           getQueryResults_replies (final x) = getQueryResults_replies v))"
proof (intro conjI impI)
  assume "orDefault (queryTimeout config) defaultQueryTimeout \<noteq> 0"
  then show "let deadline = armedAt + timer_delay (orDefault (queryTimeout config) defaultQueryTimeout);
         run = polling config (setTimeout config armedAt) queryId maxResult nextToken;
         cancel = (\<lambda>v. case stopQuery queryId config (stopQueryExecution v) of
                     None \<Rightarrow> None
                   | Some c \<Rightarrow>
                       Some (Inl (case outcome c of
                                    Resolved u \<Rightarrow> Error ''query timeout''
                                  | Rejected err \<Rightarrow> err),
                             True,
                             v\<lparr>now := now v + elapsed c, stopQueryExecution := rest c,
                               trace := trace v @
                                 replicate (Suc (length (waits c)))
                                   (CallStopQueryExecution queryId)\<rparr>));
         fetch = (\<lambda>v. case getQueryResults (getQueryResults_replies v) of
                     None \<Rightarrow> None
                   | Some f \<Rightarrow>
                       Some ((case outcome f of
                                Rejected err \<Rightarrow> Inl err
                              | Resolved page \<Rightarrow> Inr page),
                             False,
                             v\<lparr>now := now v + elapsed f, getQueryResults_replies := rest f,
                               trace := trace v @
                                 replicate (Suc (length (waits f)))
                                   (CallGetQueryResults queryId maxResult nextToken)\<rparr>));
         checked = w\<lparr>now := now w + elapsed g, getQueryExecution_replies := rest g,
                      trace := trace w @
                        replicate (Suc (length (waits g))) (CallGetQueryExecution queryId)\<rparr>
     in (deadline \<le> now w \<longrightarrow> run w = cancel w) \<and>
        (now w < deadline \<and>
         getQueryExecution queryId config (getQueryExecution_replies w) = Some g \<longrightarrow>
           (\<forall>queryExecution.
              outcome g = Resolved queryExecution \<and>
              State (Status queryExecution) = ''SUCCEEDED'' \<and>
              deadline \<le> now w + elapsed g \<longrightarrow>
                run w = cancel checked) \<and>
           (\<forall>queryExecution.
              outcome g = Resolved queryExecution \<and>
              State (Status queryExecution) = ''SUCCEEDED'' \<and>
              now w + elapsed g < deadline \<longrightarrow>
                run w = fetch checked) \<and>
           (\<forall>queryExecution err.
              outcome g = Resolved queryExecution \<and>
              checkQuery_state queryExecution = Rejected err \<longrightarrow>
                run w = Some (Inl err, False, checked)) \<and>
           (\<forall>err. outcome g = Rejected err \<longrightarrow> run w = Some (Inl err, False, checked)) \<and>
           (\<forall>queryExecution.
              outcome g = Resolved queryExecution \<and>
              (State (Status queryExecution) = ''QUEUED'' \<or>
               State (Status queryExecution) = ''RUNNING'') \<longrightarrow>
                run w = run (sleep (orDefault (pollingInterval config) defaultPollingInterval)
                               checked)))"
    by (rule polling_at_deadline)
next
  assume run: "priv_execute query maxResult nextToken config v = Some x \<and> timedOut x"
  then have x: "priv_execute query maxResult nextToken config v = Some x" and t: "timedOut x"
    by blast+
  from timedOut_run [OF x t]
  show "orDefault (queryTimeout config) defaultQueryTimeout \<noteq> 0"
    by blast
  from timedOut_run [OF x t]
  show "\<exists>queryId c pre.
           stopQuery queryId config (stopQueryExecution v) = Some c \<and>
           trace (final x) =
             pre @ replicate (Suc (length (waits c))) (CallStopQueryExecution queryId) @
             [SlotEndQuery] \<and>
           emitted x =
             [ErrorEvent (case outcome c of
                            Resolved u \<Rightarrow> Error ''query timeout''
                          | Rejected err \<Rightarrow> err)] \<and>
           getQueryResults_replies (final x) = getQueryResults_replies v"
    by blast
qed

text \<open>
  The witness: a deadline of 1500 ms armed at 10 ms has elapsed at the loop head reached
  at 2020 ms, after two checks; the cancel is throttled once, retried and accepted, and
  the timeout error is reported at 2027 ms. In the second run the deadline of 1510 ms
  elapses during a check that starts at 1000 ms, is throttled once and reports
  \<open>SUCCEEDED\<close> at 1604 ms: the cancel follows and no page is fetched.
\<close>

theorem deadline_elapsed_while_polling_witness:
  "orDefault (queryTimeout (sample_config\<lparr>queryTimeout := Some 1500\<rparr>)) defaultQueryTimeout \<noteq> 0 \<and>
   10 + timer_delay 1500 \<le>
     now (sample_world\<lparr>now := 2020,
            stopQueryExecution := [(3, Failure throttling), (3, Success ())]\<rparr>) \<and>
   polling (sample_config\<lparr>queryTimeout := Some 1500\<rparr>)
     (setTimeout (sample_config\<lparr>queryTimeout := Some 1500\<rparr>) 10) ''id-1'' 10 None
     (sample_world\<lparr>now := 2020,
        stopQueryExecution := [(3, Failure throttling), (3, Success ())]\<rparr>) =
   Some (Inl (Error ''query timeout''), True,
         sample_world\<lparr>now := 2027, stopQueryExecution := [],
           trace := [CallStopQueryExecution ''id-1'', CallStopQueryExecution ''id-1'']\<rparr>) \<and>
   (\<exists>x. (priv_execute ''SELECT 1'' 10 None (sample_config\<lparr>queryTimeout := Some 1500\<rparr>)
            (sample_world\<lparr>stopQueryExecution := [(3, Failure throttling), (3, Success ())]\<rparr>)
           :: (string, string list) execution option) = Some x \<and>
        timedOut x \<and>
        emitted x = [ErrorEvent (Error ''query timeout'')] \<and>
        now (final x) = 2027 \<and>
        trace (final x) =
          [SlotStartQuery,
           CallStartQueryExecution
             (startQuery_params ''SELECT 1'' (sample_config\<lparr>queryTimeout := Some 1500\<rparr>)),
           CallGetQueryExecution ''id-1'', CallGetQueryExecution ''id-1'',
           CallStopQueryExecution ''id-1'', CallStopQueryExecution ''id-1'', SlotEndQuery] \<and>
        getQueryResults_replies (final x) = [(7, Success [''1'', ''2'', ''3''])]) \<and>
   getQueryExecution ''id-1'' (sample_config\<lparr>queryTimeout := Some 1500\<rparr>)
     [(3, Failure throttling), (600, Success (status_reply ''SUCCEEDED'' None))] =
   Some \<lparr>outcome = Resolved (status_reply ''SUCCEEDED'' None), waits = [Exact 1],
         elapsed = 604, rest = []\<rparr> \<and>
   1000 < 10 + timer_delay 1500 \<and> 10 + timer_delay 1500 \<le> 1000 + (604::nat) \<and>
   polling (sample_config\<lparr>queryTimeout := Some 1500\<rparr>)
     (setTimeout (sample_config\<lparr>queryTimeout := Some 1500\<rparr>) 10) ''id-1'' 10 None
     (sample_world\<lparr>now := 1000,
        getQueryExecution_replies :=
          [(3, Failure throttling), (600, Success (status_reply ''SUCCEEDED'' None))],
        stopQueryExecution := [(3, Success ())]\<rparr>) =
   Some (Inl (Error ''query timeout''), True,
         sample_world\<lparr>now := 1607, getQueryExecution_replies := [], stopQueryExecution := [],
           trace := [CallGetQueryExecution ''id-1'', CallGetQueryExecution ''id-1'',
                     CallStopQueryExecution ''id-1'']\<rparr>)"
proof -
  let ?config = "sample_config\<lparr>queryTimeout := Some 1500\<rparr>"
  let ?w = "sample_world\<lparr>now := 2020,
              stopQueryExecution := [(3, Failure throttling), (3, Success ())]\<rparr>"
  let ?v = "sample_world\<lparr>stopQueryExecution := [(3, Failure throttling), (3, Success ())]\<rparr>"
  have armed: "orDefault (queryTimeout ?config) defaultQueryTimeout \<noteq> 0"
    by (simp add: orDefault_def)
  have late: "10 + timer_delay (orDefault (queryTimeout ?config) defaultQueryTimeout) \<le> now ?w"
    by (simp add: orDefault_def timer_delay_def)
  have stop: "stopQuery ''id-1'' ?config (stopQueryExecution ?w) =
      Some \<lparr>outcome = Resolved (), waits = [Exact 1], elapsed = 7, rest = []\<rparr>"
    by (simp add: eval_defs sample_world_def)
  obtain x :: "(string, string list) execution" where
    x: "priv_execute ''SELECT 1'' 10 None ?config ?v = Some x"
    and t: "timedOut x"
    and e: "emitted x = [ErrorEvent (Error ''query timeout'')]"
    and n: "now (final x) = 2027"
    and tr: "trace (final x) =
          [SlotStartQuery,
           CallStartQueryExecution (startQuery_params ''SELECT 1'' ?config),
           CallGetQueryExecution ''id-1'', CallGetQueryExecution ''id-1'',
           CallStopQueryExecution ''id-1'', CallStopQueryExecution ''id-1'', SlotEndQuery]"
    by (simp add: run_defs)
  note claim = deadline_elapsed_while_polling [where config = ?config and armedAt = 10
      and w = ?w and queryId = "''id-1''" and maxResult = 10 and nextToken = None
      and query = "''SELECT 1''" and v = ?v and x = x]
  from claim armed late
  have "polling ?config (setTimeout ?config 10) ''id-1'' 10 None ?w =
      (case stopQuery ''id-1'' ?config (stopQueryExecution ?w) of
         None \<Rightarrow> None
       | Some c \<Rightarrow>
           Some (Inl (case outcome c of
                        Resolved u \<Rightarrow> Error ''query timeout''
                      | Rejected err \<Rightarrow> err),
                 True,
                 ?w\<lparr>now := now ?w + elapsed c, stopQueryExecution := rest c,
                   trace := trace ?w @
                     replicate (Suc (length (waits c))) (CallStopQueryExecution ''id-1'')\<rparr>))"
    unfolding Let_def by blast
  then have p: "polling ?config (setTimeout ?config 10) ''id-1'' 10 None ?w =
      Some (Inl (Error ''query timeout''), True,
         sample_world\<lparr>now := 2027, stopQueryExecution := [],
           trace := [CallStopQueryExecution ''id-1'', CallStopQueryExecution ''id-1'']\<rparr>)"
    unfolding stop by (simp add: sample_world_def)
  have l: "10 + timer_delay 1500 \<le> now ?w"
    by (simp add: timer_delay_def)
  from claim x t have "getQueryResults_replies (final x) = getQueryResults_replies ?v"
    by blast
  then have g: "getQueryResults_replies (final x) = [(7, Success [''1'', ''2'', ''3''])]"
    by (simp add: sample_world_def)
  have during: "getQueryExecution ''id-1'' (sample_config\<lparr>queryTimeout := Some 1500\<rparr>)
     [(3, Failure throttling), (600, Success (status_reply ''SUCCEEDED'' None))] =
   Some \<lparr>outcome = Resolved (status_reply ''SUCCEEDED'' None), waits = [Exact 1],
         elapsed = 604, rest = []\<rparr> \<and>
   1000 < 10 + timer_delay 1500 \<and> 10 + timer_delay 1500 \<le> 1000 + (604::nat) \<and>
   polling (sample_config\<lparr>queryTimeout := Some 1500\<rparr>)
     (setTimeout (sample_config\<lparr>queryTimeout := Some 1500\<rparr>) 10) ''id-1'' 10 None
     (sample_world\<lparr>now := 1000,
        getQueryExecution_replies :=
          [(3, Failure throttling), (600, Success (status_reply ''SUCCEEDED'' None))],
        stopQueryExecution := [(3, Success ())]\<rparr>) =
   Some (Inl (Error ''query timeout''), True,
         sample_world\<lparr>now := 1607, getQueryExecution_replies := [], stopQueryExecution := [],
           trace := [CallGetQueryExecution ''id-1'', CallGetQueryExecution ''id-1'',
                     CallStopQueryExecution ''id-1'']\<rparr>)"
  proof -
    let ?config = "sample_config\<lparr>queryTimeout := Some 1500\<rparr>"
    let ?u = "sample_world\<lparr>now := 1000,
          getQueryExecution_replies :=
            [(3, Failure throttling), (600, Success (status_reply ''SUCCEEDED'' None))],
          stopQueryExecution := [(3, Success ())]\<rparr>"
    let ?g = "\<lparr>outcome = Resolved (status_reply ''SUCCEEDED'' None), waits = [Exact 1],
           elapsed = 604, rest = []\<rparr> :: (QueryExecution, QueryExecution, number) finished"
    have armed: "orDefault (queryTimeout ?config) defaultQueryTimeout \<noteq> 0"
      by (simp add: orDefault_def)
    have check: "getQueryExecution ''id-1'' ?config
       [(3, Failure throttling), (600, Success (status_reply ''SUCCEEDED'' None))] = Some ?g"
      by (simp add: eval_defs)
    then have check': "getQueryExecution ''id-1'' ?config (getQueryExecution_replies ?u) = Some ?g"
      by (simp add: sample_world_def)
    have before: "now ?u < 10 + timer_delay (orDefault (queryTimeout ?config) defaultQueryTimeout)"
      by (simp add: orDefault_def timer_delay_def sample_world_def)
    have during: "10 + timer_delay (orDefault (queryTimeout ?config) defaultQueryTimeout)
        \<le> now ?u + elapsed ?g"
      by (simp add: orDefault_def timer_delay_def sample_world_def)
    have st: "outcome ?g = Resolved (status_reply ''SUCCEEDED'' None)"
      "State (Status (status_reply ''SUCCEEDED'' None)) = ''SUCCEEDED''"
      by (simp_all add: status_reply_def)
    let ?checked = "?u\<lparr>now := now ?u + elapsed ?g, getQueryExecution_replies := rest ?g,
         trace := trace ?u @ replicate (Suc (length (waits ?g))) (CallGetQueryExecution ''id-1'')\<rparr>"
    have stop: "stopQuery ''id-1'' ?config (stopQueryExecution ?checked) =
        Some \<lparr>outcome = Resolved (), waits = [], elapsed = 3, rest = []\<rparr>"
      by (simp add: eval_defs sample_world_def)
    note claim = deadline_elapsed_while_polling [where config = ?config and armedAt = 10
        and w = ?u and queryId = "''id-1''" and maxResult = 10 and nextToken = None and g = ?g]
    from claim armed before check' during st
    have "polling ?config (setTimeout ?config 10) ''id-1'' 10 None ?u =
        (case stopQuery ''id-1'' ?config (stopQueryExecution ?checked) of
           None \<Rightarrow> None
         | Some c \<Rightarrow>
             Some (Inl (case outcome c of
                          Resolved u \<Rightarrow> Error ''query timeout''
                        | Rejected err \<Rightarrow> err),
                   True,
                   ?checked\<lparr>now := now ?checked + elapsed c, stopQueryExecution := rest c,
                     trace := trace ?checked @
                       replicate (Suc (length (waits c))) (CallStopQueryExecution ''id-1'')\<rparr>))"
      unfolding Let_def by blast
    then have p: "polling ?config (setTimeout ?config 10) ''id-1'' 10 None ?u =
        Some (Inl (Error ''query timeout''), True,
           sample_world\<lparr>now := 1607, getQueryExecution_replies := [], stopQueryExecution := [],
             trace := [CallGetQueryExecution ''id-1'', CallGetQueryExecution ''id-1'',
                       CallStopQueryExecution ''id-1'']\<rparr>)"
      unfolding stop by (simp add: sample_world_def)
    have l: "1000 < 10 + timer_delay 1500" "10 + timer_delay 1500 \<le> 1000 + (604::nat)"
      by (simp_all add: timer_delay_def)
    from check l p show ?thesis
      by blast
  qed
  from armed l p x t e n tr g during show ?thesis
    by blast
qed

text \<open>
  The claim as stated fails in two ways. With the same deadline and a service that
  refuses the cancel, the error reported is the cancel's error, not the timeout error.
  With a deadline at 13 ms that elapses during a status check running from 10 ms to
  15 ms and reporting \<open>FAILED\<close>, the run ends with the failure of the query: no cancel is
  issued and no timeout error is reported.
\<close>

theorem deadline_elapsed_while_polling_counterexample:
  "map_option timedOut
     (priv_execute ''SELECT 1'' 10 None (sample_config\<lparr>queryTimeout := Some 1500\<rparr>) sample_world
        :: (string, string list) execution option) = Some True \<and>
   map_option emitted
     (priv_execute ''SELECT 1'' 10 None (sample_config\<lparr>queryTimeout := Some 1500\<rparr>) sample_world
        :: (string, string list) execution option) = Some [ErrorEvent (Aws accessDenied)] \<and>
   Aws accessDenied \<noteq> Error ''query timeout'' \<and>
   setTimeout (sample_config\<lparr>queryTimeout := Some 3\<rparr>) 10 = Some 13 \<and>
   map_option (now \<circ> final)
     (priv_execute ''SELECT 1'' 10 None (sample_config\<lparr>queryTimeout := Some 3\<rparr>)
        (sample_world\<lparr>getQueryExecution_replies :=
           [(5, Success (status_reply ''FAILED'' None))]\<rparr>)
        :: (string, string list) execution option) = Some 15 \<and>
   map_option emitted
     (priv_execute ''SELECT 1'' 10 None (sample_config\<lparr>queryTimeout := Some 3\<rparr>)
        (sample_world\<lparr>getQueryExecution_replies :=
           [(5, Success (status_reply ''FAILED'' None))]\<rparr>)
        :: (string, string list) execution option) =
     Some [ErrorEvent (Error ''FAILED: Execution Error'')] \<and>
   map_option (trace \<circ> final)
     (priv_execute ''SELECT 1'' 10 None (sample_config\<lparr>queryTimeout := Some 3\<rparr>)
        (sample_world\<lparr>getQueryExecution_replies :=
           [(5, Success (status_reply ''FAILED'' None))]\<rparr>)
        :: (string, string list) execution option) =
     Some [SlotStartQuery,
           CallStartQueryExecution
             (startQuery_params ''SELECT 1'' (sample_config\<lparr>queryTimeout := Some 3\<rparr>)),
           CallGetQueryExecution ''id-1'', SlotEndQuery]"
  by (simp add: run_defs)

section \<open>Status mapping\<close>

text \<open>
  Claim C6. One status check that the service answers before the deadline: \<open>QUEUED\<close>
  and \<open>RUNNING\<close> make the loop sleep and poll again; \<open>SUCCEEDED\<close> ends the loop normally;
  \<open>FAILED\<close> ends it with the stated reason, or with the generic reason when the reason
  is missing or empty; \<open>CANCELLED\<close> ends it with the cancellation error; any other
  status ends it with an error naming the status. In every terminal case the loop
  returns at once: the remaining replies of the service are untouched and exactly one
  call is traced.
\<close>

theorem status_mapping:
  assumes "\<not> isTimeout timer (now w)"
    and "getQueryExecution_replies w = (latency, Success queryExecution) # script"
  shows "pollLoop config timer queryId w =
     (let state = State (Status queryExecution);
          polled = w\<lparr>now := now w + latency, getQueryExecution_replies := script,
                     trace := trace w @ [CallGetQueryExecution queryId]\<rparr>
      in if state = ''QUEUED'' \<or> state = ''RUNNING'' then
           pollLoop config timer queryId
             (sleep (orDefault (pollingInterval config) defaultPollingInterval) polled)
         else if state = ''SUCCEEDED'' then Some (Inr (), polled)
         else if state = ''FAILED'' then
           Some (Inl (Error (case StateChangeReason (Status queryExecution) of
                               None \<Rightarrow> ''FAILED: Execution Error''
                             | Some reason \<Rightarrow>
                                 if reason = [] then ''FAILED: Execution Error'' else reason)),
                 polled)
         else if state = ''CANCELLED'' then Some (Inl (Error ''FAILED: Query CANCELLED''), polled)
         else Some (Inl (Error (''FAILED: UnKnown State '' @ state)), polled))"
proof -
  let ?state = "State (Status queryExecution)"
  have after: "after_call a d (w\<lparr>getQueryExecution_replies := s\<rparr>) =
      w\<lparr>now := now w + elapsed d, getQueryExecution_replies := s,
        trace := trace w @ replicate (Suc (length (waits d))) a\<rparr>"
    for a s and d :: "(QueryExecution, bool, number) finished"
    by (simp add: after_call_def)
  have check: "checkQuery queryId config (getQueryExecution_replies w) =
      Some \<lparr>outcome = checkQuery_state queryExecution, waits = [], elapsed = latency,
            rest = script\<rparr>"
    by (simp add: assms(2) checkQuery_def getQueryExecution_def)
  consider
    (waiting) "?state = ''QUEUED'' \<or> ?state = ''RUNNING''"
    | (succeeded) "?state = ''SUCCEEDED''"
    | (failed) "?state = ''FAILED''"
    | (cancelled) "?state = ''CANCELLED''"
    | (unknown) "?state \<noteq> ''QUEUED''" "?state \<noteq> ''RUNNING''" "?state \<noteq> ''SUCCEEDED''"
        "?state \<noteq> ''FAILED''" "?state \<noteq> ''CANCELLED''"
    by blast
  then show ?thesis
  proof cases
    case waiting
    then have "checkQuery_state queryExecution = Resolved False"
      by (auto simp: checkQuery_state_def)
    with waiting show ?thesis
      by (subst pollLoop.simps) (simp add: assms(1) check after)
  next
    case succeeded
    then have "checkQuery_state queryExecution = Resolved True"
      by (simp add: checkQuery_state_def)
    with succeeded show ?thesis
      by (subst pollLoop.simps) (simp add: assms(1) check after)
  next
    case failed
    then have "checkQuery_state queryExecution =
        Rejected (Error (case StateChangeReason (Status queryExecution) of
                           None \<Rightarrow> ''FAILED: Execution Error''
                         | Some reason \<Rightarrow>
                             if reason = [] then ''FAILED: Execution Error'' else reason))"
      by (simp add: checkQuery_state_def orDefaultStr_def)
    with failed show ?thesis
      by (subst pollLoop.simps) (simp add: assms(1) check after)
  next
    case cancelled
    then have "checkQuery_state queryExecution = Rejected (Error ''FAILED: Query CANCELLED'')"
      by (simp add: checkQuery_state_def)
    with cancelled show ?thesis
      by (subst pollLoop.simps) (simp add: assms(1) check after)
  next
    case unknown
    then have "checkQuery_state queryExecution =
        Rejected (Error (''FAILED: UnKnown State '' @ ?state))"
      by (simp add: checkQuery_state_def)
    with unknown show ?thesis
      by (subst pollLoop.simps) (simp add: assms(1) check after)
  qed
qed

theorem status_mapping_witness:
  "pollLoop sample_config None ''id-1''
     (sample_world\<lparr>getQueryExecution_replies :=
        [(5, Success (status_reply ''FAILED'' (Some ''SYNTAX_ERROR: line 1''))),
         (5, Success (status_reply ''SUCCEEDED'' None))]\<rparr>) =
   Some (Inl (Error ''SYNTAX_ERROR: line 1''),
         sample_world\<lparr>now := 5,
           getQueryExecution_replies := [(5, Success (status_reply ''SUCCEEDED'' None))],
           trace := [CallGetQueryExecution ''id-1'']\<rparr>)"
  using status_mapping [of None
      "sample_world\<lparr>getQueryExecution_replies :=
        [(5, Success (status_reply ''FAILED'' (Some ''SYNTAX_ERROR: line 1''))),
         (5, Success (status_reply ''SUCCEEDED'' None))]\<rparr>"
      5 "status_reply ''FAILED'' (Some ''SYNTAX_ERROR: line 1'')"
      "[(5, Success (status_reply ''SUCCEEDED'' None))]" sample_config "''id-1''"]
  by (simp add: isTimeout_def sample_world_def status_reply_def)

section \<open>The aggregate view\<close>

lemma listen_data:
  "foldl on_event l (map Data rows) = l\<lparr>records := records l @ rows\<rparr>"
  by (induction rows arbitrary: l) simp_all

text \<open>
  Claim C1. What the promise of \<open>toPromise\<close> settles with. A run that reaches
  end-of-data emits \<open>query_end\<close> and \<open>end\<close> and the promise resolves with the payload of
  \<open>query_end\<close> alone; a run that fails emits \<open>error\<close> and the promise rejects with that
  error. No \<open>data\<close> event is emitted by the run, and the records that \<open>data\<close> events
  would add to the array \<open>records\<close> are not part of the value the promise resolves with.
\<close>

theorem promise_settles_with_result_set:
  assumes "execute query maxResult nextToken config w = Some x"
  shows "((\<exists>page. toStream x = [QueryEnd page, End] \<and> toPromise x = Some (Resolved (Some page))) \<or>
          (\<exists>err. toStream x = [ErrorEvent err] \<and> toPromise x = Some (Rejected err))) \<and>
         records (listen (toStream x)) = [] \<and>
         promise (listen (map Data rows @ [QueryEnd page', End])) = Some (Resolved (Some page')) \<and>
         records (listen (map Data rows @ [QueryEnd page', End])) = rows"
proof -
  from assms have "priv_execute query maxResult nextToken config w = Some x"
    by (simp add: execute_def)
  then obtain r where
    "emitted x = (case r of Inl err \<Rightarrow> [ErrorEvent err] | Inr page \<Rightarrow> [QueryEnd page, End])"
    by (rule priv_execute_unfold)
  then have "((\<exists>page. toStream x = [QueryEnd page, End] \<and> toPromise x = Some (Resolved (Some page))) \<or>
          (\<exists>err. toStream x = [ErrorEvent err] \<and> toPromise x = Some (Rejected err))) \<and>
         records (listen (toStream x)) = []"
    by (cases r) (simp_all add: toStream_def toPromise_def listen_def)
  moreover have "promise (listen (map Data rows @ [QueryEnd page', End])) = Some (Resolved (Some page'))"
    "records (listen (map Data rows @ [QueryEnd page', End])) = rows"
    by (simp_all add: listen_def listen_data)
  ultimately show ?thesis by blast
qed

text \<open>
  The witness, and the input at which the code departs from the claim: the service
  reports \<open>SUCCEEDED\<close> at the third check and returns one page of three rows. The promise
  resolves with that page as the service returned it, and the transform emits no record.
\<close>

theorem promise_settles_with_result_set_witness:
  "\<exists>x. (execute ''SELECT 1'' 10 None sample_config sample_world
          :: (string, string list) execution option) = Some x \<and>
       toStream x = [QueryEnd [''1'', ''2'', ''3''], End] \<and>
       toPromise x = Some (Resolved (Some [''1'', ''2'', ''3''])) \<and>
       records (listen (toStream x)) = []"
proof -
  obtain x :: "(string, string list) execution" where
    x: "execute ''SELECT 1'' 10 None sample_config sample_world = Some x"
    and s: "toStream x = [QueryEnd [''1'', ''2'', ''3''], End]"
    by (simp add: run_defs toStream_def)
  from promise_settles_with_result_set [OF x, where rows = "[]" and page' = "[]"]
  have "(\<exists>page. toStream x = [QueryEnd page, End] \<and> toPromise x = Some (Resolved (Some page))) \<or>
        (\<exists>err. toStream x = [ErrorEvent err] \<and> toPromise x = Some (Rejected err))"
    and r: "records (listen (toStream x)) = []"
    by blast+
  with s have "toPromise x = Some (Resolved (Some [''1'', ''2'', ''3'']))"
    by auto
  with x s r show ?thesis
    by blast
qed

section \<open>Options read through a truthiness test\<close>

text \<open>
  A run depends on the configuration only through the values the code computes from it.
\<close>

lemma loopFunc_config_cong:
  assumes "\<And>n. canRetry n c = canRetry n c'" and "\<And>n. wait c n = wait c' n"
  shows "loopFunc wait delay c n script = loopFunc wait delay c' n script"
proof (induction script arbitrary: n)
  case Nil
  show ?case by simp
next
  case (Cons a script)
  obtain latency r where a: "a = (latency, r)" by (cases a)
  show ?case
  proof (cases r)
    case (Failure err)
    with a show ?thesis by (simp add: assms Cons.IH cong: option.case_cong)
  next
    case (Success data)
    with a show ?thesis by simp
  qed
qed

lemma pollLoop_config_cong:
  assumes "\<And>script. checkQuery queryId c script = checkQuery queryId c' script"
    and "orDefault (pollingInterval c) defaultPollingInterval =
         orDefault (pollingInterval c') defaultPollingInterval"
  shows "pollLoop c timer queryId w = pollLoop c' timer queryId w"
  using assms
proof (induction c timer queryId w rule: pollLoop.induct)
  case (1 config timer queryId w)
  show ?case
  proof (cases "isTimeout timer (now w)")
    case True
    then show ?thesis
      by (simp add: pollLoop.simps [of config timer queryId w] pollLoop.simps [of c' timer queryId w])
  next
    case False
    show ?thesis
    proof (cases "checkQuery queryId config (getQueryExecution_replies w)")
      case None
      with False "1.prems"(1) show ?thesis
        by (simp add: pollLoop.simps [of config timer queryId w] pollLoop.simps [of c' timer queryId w])
    next
      case (Some d)
      show ?thesis
      proof (cases "outcome d")
        case (Rejected err)
        with False Some "1.prems"(1) show ?thesis
          by (simp add: pollLoop.simps [of config timer queryId w]
                pollLoop.simps [of c' timer queryId w])
      next
        case (Resolved isSucceed)
        show ?thesis
        proof (cases isSucceed)
          case True
          with Resolved False Some "1.prems"(1) show ?thesis
            by (simp add: pollLoop.simps [of config timer queryId w]
                  pollLoop.simps [of c' timer queryId w])
        next
          case notyet: False
          from "1.IH" [OF False Some Resolved notyet "1.prems"]
          have "pollLoop config timer queryId
                  (sleep (orDefault (pollingInterval config) defaultPollingInterval)
                     (after_call (CallGetQueryExecution queryId) d
                        (w\<lparr>getQueryExecution_replies := rest d\<rparr>))) =
                pollLoop c' timer queryId
                  (sleep (orDefault (pollingInterval config) defaultPollingInterval)
                     (after_call (CallGetQueryExecution queryId) d
                        (w\<lparr>getQueryExecution_replies := rest d\<rparr>)))" .
          with notyet Resolved False Some "1.prems" show ?thesis
            by (simp add: pollLoop.simps [of config timer queryId w]
                  pollLoop.simps [of c' timer queryId w])
        qed
      qed
    qed
  qed
qed

lemma priv_execute_config_cong:
  fixes w :: "'r world"
  assumes retry: "\<And>n. canRetry n c = canRetry n c'"
    and w1: "\<And>n. startQuery_wait c n = startQuery_wait c' n"
    and w2: "\<And>n. stopQuery_wait c n = stopQuery_wait c' n"
    and w3: "\<And>n. getQueryExecution_wait c n = getQueryExecution_wait c' n"
    and params: "startQuery_params query c = startQuery_params query c'"
    and polling: "orDefault (pollingInterval c) defaultPollingInterval =
         orDefault (pollingInterval c') defaultPollingInterval"
    and timeout: "orDefault (queryTimeout c) defaultQueryTimeout =
         orDefault (queryTimeout c') defaultQueryTimeout"
    and admission: "orDefault (execRightCheckInterval c) defaultExecRightCheckInterval =
         orDefault (execRightCheckInterval c') defaultExecRightCheckInterval"
  shows "priv_execute query maxResult nextToken c w = priv_execute query maxResult nextToken c' w"
proof -
  have start: "request_startQuery query c script = request_startQuery query c' script" for script
    unfolding request_startQuery_def by (rule loopFunc_config_cong [OF retry w1])
  have stop: "stopQuery queryId c script = stopQuery queryId c' script" for queryId script
    unfolding stopQuery_def by (rule loopFunc_config_cong [OF retry w2])
  have "getQueryExecution queryId c script = getQueryExecution queryId c' script" for queryId script
    unfolding getQueryExecution_def by (rule loopFunc_config_cong [OF retry w3])
  then have check: "checkQuery queryId c script = checkQuery queryId c' script" for queryId script
    by (simp add: checkQuery_def)
  have poll: "pollLoop c timer queryId v = pollLoop c' timer queryId v"
    for timer queryId and v :: "'r world"
    by (rule pollLoop_config_cong [OF check polling])
  have timer: "setTimeout c t = setTimeout c' t" for t
    by (simp add: setTimeout_def timeout)
  have after: "afterPolling c timer queryId maxResult nextToken v =
      afterPolling c' timer queryId maxResult nextToken v" for timer queryId and v :: "'r world"
    by (simp add: afterPolling_def stop)
  have block: "tryBlock query maxResult nextToken c v = tryBlock query maxResult nextToken c' v"
    for v :: "'r world"
    unfolding tryBlock_def polling_def start params timer poll after ..
  show ?thesis
    unfolding priv_execute_def admission block ..
qed


text \<open>
  Claim C10. An explicit 0 in \<open>pollingInterval\<close>, \<open>execRightCheckInterval\<close>,
  \<open>baseRetryWait\<close>, \<open>retryWaitMax\<close> or \<open>retryCountMax\<close> gives the same run as leaving the
  option out and the same run as passing the documented default (1000, 100, 200, 10000,
  10); with \<open>retryCountMax: 0\<close> retries are allowed while fewer than 10 have been made;
  the constructor leaves the process-wide ceiling unchanged for
  \<open>concurrentExecMax: 0\<close>, as it does when the option is missing.
\<close>

theorem zero_option_is_absent:
  "priv_execute query maxResult nextToken (config\<lparr>pollingInterval := Some 0\<rparr>) w =
     priv_execute query maxResult nextToken (config\<lparr>pollingInterval := None\<rparr>) w \<and>
   priv_execute query maxResult nextToken (config\<lparr>pollingInterval := Some 0\<rparr>) w =
     priv_execute query maxResult nextToken (config\<lparr>pollingInterval := Some 1000\<rparr>) w \<and>
   priv_execute query maxResult nextToken (config\<lparr>execRightCheckInterval := Some 0\<rparr>) w =
     priv_execute query maxResult nextToken (config\<lparr>execRightCheckInterval := None\<rparr>) w \<and>
   priv_execute query maxResult nextToken (config\<lparr>execRightCheckInterval := Some 0\<rparr>) w =
     priv_execute query maxResult nextToken (config\<lparr>execRightCheckInterval := Some 100\<rparr>) w \<and>
   priv_execute query maxResult nextToken (config\<lparr>baseRetryWait := Some 0\<rparr>) w =
     priv_execute query maxResult nextToken (config\<lparr>baseRetryWait := None\<rparr>) w \<and>
   priv_execute query maxResult nextToken (config\<lparr>baseRetryWait := Some 0\<rparr>) w =
     priv_execute query maxResult nextToken (config\<lparr>baseRetryWait := Some 200\<rparr>) w \<and>
   priv_execute query maxResult nextToken (config\<lparr>retryWaitMax := Some 0\<rparr>) w =
     priv_execute query maxResult nextToken (config\<lparr>retryWaitMax := None\<rparr>) w \<and>
   priv_execute query maxResult nextToken (config\<lparr>retryWaitMax := Some 0\<rparr>) w =
     priv_execute query maxResult nextToken (config\<lparr>retryWaitMax := Some 10000\<rparr>) w \<and>
   priv_execute query maxResult nextToken (config\<lparr>retryCountMax := Some 0\<rparr>) w =
     priv_execute query maxResult nextToken (config\<lparr>retryCountMax := None\<rparr>) w \<and>
   priv_execute query maxResult nextToken (config\<lparr>retryCountMax := Some 0\<rparr>) w =
     priv_execute query maxResult nextToken (config\<lparr>retryCountMax := Some 10\<rparr>) w \<and>
   canRetry n (config\<lparr>retryCountMax := Some 0\<rparr>) = (n < 10) \<and>
   concurrentExecMax (snd (constructor (config\<lparr>config_concurrentExecMax := Some 0\<rparr>) g)) =
     concurrentExecMax g \<and>
   concurrentExecMax (snd (constructor (config\<lparr>config_concurrentExecMax := None\<rparr>) g)) =
     concurrentExecMax g \<and>
   concurrentExecMax (snd (constructor (config\<lparr>config_concurrentExecMax := Some 3\<rparr>) g)) = 3"
proof -
  note defs = canRetry_def startQuery_wait_def stopQuery_wait_def getQueryExecution_wait_def
    startQuery_params_def orDefault_def defaultPollingInterval_def
    defaultExecRightCheckInterval_def defaultBaseRetryWait_def defaultRetryWaitMax_def
    defaultRetryCountMax_def
  have p1: "priv_execute query maxResult nextToken (config\<lparr>pollingInterval := Some 0\<rparr>) w =
     priv_execute query maxResult nextToken (config\<lparr>pollingInterval := None\<rparr>) w"
    by (rule priv_execute_config_cong) (simp_all add: defs cong: option.case_cong if_cong)
  have p2: "priv_execute query maxResult nextToken (config\<lparr>pollingInterval := Some 0\<rparr>) w =
     priv_execute query maxResult nextToken (config\<lparr>pollingInterval := Some 1000\<rparr>) w"
    by (rule priv_execute_config_cong) (simp_all add: defs cong: option.case_cong if_cong)
  have e1: "priv_execute query maxResult nextToken (config\<lparr>execRightCheckInterval := Some 0\<rparr>) w =
     priv_execute query maxResult nextToken (config\<lparr>execRightCheckInterval := None\<rparr>) w"
    by (rule priv_execute_config_cong) (simp_all add: defs cong: option.case_cong if_cong)
  have e2: "priv_execute query maxResult nextToken (config\<lparr>execRightCheckInterval := Some 0\<rparr>) w =
     priv_execute query maxResult nextToken (config\<lparr>execRightCheckInterval := Some 100\<rparr>) w"
    by (rule priv_execute_config_cong) (simp_all add: defs cong: option.case_cong if_cong)
  have b1: "priv_execute query maxResult nextToken (config\<lparr>baseRetryWait := Some 0\<rparr>) w =
     priv_execute query maxResult nextToken (config\<lparr>baseRetryWait := None\<rparr>) w"
    by (rule priv_execute_config_cong) (simp_all add: defs cong: option.case_cong if_cong)
  have b2: "priv_execute query maxResult nextToken (config\<lparr>baseRetryWait := Some 0\<rparr>) w =
     priv_execute query maxResult nextToken (config\<lparr>baseRetryWait := Some 200\<rparr>) w"
    by (rule priv_execute_config_cong) (simp_all add: defs cong: option.case_cong if_cong)
  have m1: "priv_execute query maxResult nextToken (config\<lparr>retryWaitMax := Some 0\<rparr>) w =
     priv_execute query maxResult nextToken (config\<lparr>retryWaitMax := None\<rparr>) w"
    by (rule priv_execute_config_cong) (simp_all add: defs cong: option.case_cong if_cong)
  have m2: "priv_execute query maxResult nextToken (config\<lparr>retryWaitMax := Some 0\<rparr>) w =
     priv_execute query maxResult nextToken (config\<lparr>retryWaitMax := Some 10000\<rparr>) w"
    by (rule priv_execute_config_cong) (simp_all add: defs cong: option.case_cong if_cong)
  have c1: "priv_execute query maxResult nextToken (config\<lparr>retryCountMax := Some 0\<rparr>) w =
     priv_execute query maxResult nextToken (config\<lparr>retryCountMax := None\<rparr>) w"
    by (rule priv_execute_config_cong) (simp_all add: defs cong: option.case_cong if_cong)
  have c2: "priv_execute query maxResult nextToken (config\<lparr>retryCountMax := Some 0\<rparr>) w =
     priv_execute query maxResult nextToken (config\<lparr>retryCountMax := Some 10\<rparr>) w"
    by (rule priv_execute_config_cong) (simp_all add: defs cong: option.case_cong if_cong)
  have r: "canRetry n (config\<lparr>retryCountMax := Some 0\<rparr>) = (n < 10)"
    by (simp add: defs)
  have k: "concurrentExecMax (snd (constructor (config\<lparr>config_concurrentExecMax := Some 0\<rparr>) g)) =
       concurrentExecMax g"
    "concurrentExecMax (snd (constructor (config\<lparr>config_concurrentExecMax := None\<rparr>) g)) =
       concurrentExecMax g"
    "concurrentExecMax (snd (constructor (config\<lparr>config_concurrentExecMax := Some 3\<rparr>) g)) = 3"
    by (simp_all add: constructor_def Let_def)
  from p1 p2 e1 e2 b1 b2 m1 m2 c1 c2 r k show ?thesis
    by (intro conjI)
qed

end
